theory Spec2Isabelle
  imports Main "HOL-Library.Char_ord" "HOL-Library.List_Lexorder"
begin

section \<open>Data model of \<open>job_scraper.py\<close>\<close>

text \<open>
  A job is the dict produced by the scraper; \<open>scrape_jobs\<close>, \<open>create_html_table\<close> and
  \<open>send_email_notification\<close> read exactly the keys \<open>job_id\<close>, \<open>company\<close>, \<open>title\<close>,
  \<open>location\<close> and \<open>url\<close>.
\<close>

record job =
  job_id :: string
  company :: string
  title :: string
  location :: string
  url :: string

text \<open>
  A document of the Firestore collection \<open>users\<close>. The fields \<open>name\<close>, \<open>email\<close> and
  \<open>companies\<close> may be absent from a document (\<open>None\<close>).
\<close>

record user_doc =
  doc_id :: string
  doc_name :: "string option"
  doc_email :: "string option"
  doc_companies :: "string list option"

text \<open>The dict built by \<open>get_user_preferences\<close> for one user (lines 28-33).\<close>

record user =
  u_id :: string
  u_name :: "string option"
  u_email :: "string option"
  u_companies :: "string list"

text \<open>The only exception the external calls of \<open>scrape_jobs\<close> let escape.\<close>

datatype error = FirestoreError

text \<open>
  What the block \<open>try: ... except Exception\<close> of \<open>send_email_notification\<close>
  (lines 208-216) can meet: every call succeeds; a call up to and including
  \<open>server.send_message\<close> raises (nothing is delivered); or only \<open>server.quit\<close> raises
  (the message went out).
\<close>

datatype smtp_outcome = SmtpOk | SmtpRaises | SmtpQuitRaises

text \<open>Calls made on the collection \<open>jobs\<close>: the query of line 59 and the \<open>add\<close> of line 62.\<close>

datatype jobs_call = Where_job_id string | Add job

text \<open>The lines the program prints; one constructor for each \<open>print\<close> of the source.\<close>

datatype log_line =
    NoUsersFound                        \<comment> \<open>line 41\<close>
  | ScrapingFrom string                 \<comment> \<open>line 47\<close>
  | ScrapeFailed string                 \<comment> \<open>the scraper's own error log\<close>
  | SentEmail "string option" nat       \<comment> \<open>line 68\<close>
  | NoNewJobs "string option"           \<comment> \<open>line 70\<close>
  | EmailOk "string option"             \<comment> \<open>line 214\<close>
  | EmailError "string option"          \<comment> \<open>line 216\<close>

text \<open>
  The rendered e-mail: the plain-text part has one block for each job (lines 185-190),
  the HTML part is the table of \<open>create_html_table\<close>, a sequence of rows.
\<close>

record text_block =
  tb_company :: string
  tb_position :: string
  tb_location :: string
  tb_apply :: string

datatype html_row = CompanyHeader string | JobRow string string string

record message =
  msg_to :: "string option"
  msg_name :: "string option"
  msg_count :: nat
  msg_text :: "text_block list"
  msg_html :: "html_row list"

text \<open>
  Everything outside the program that it reads or changes: the two Firestore collections,
  the outcome of each coming Firestore call (\<open>True\<close>: the call raises) and of each coming
  SMTP session, and the record of what the program did to its collaborators: the boards
  it requested, the calls on the collection \<open>jobs\<close>, the calls of
  \<open>send_email_notification\<close> with their arguments, the messages delivered, the lines
  printed.
\<close>

record world =
  users_coll :: "user_doc list"
  jobs_coll :: "job list"
  db_faults :: "bool list"
  smtp_faults :: "smtp_outcome list"
  fetched :: "(string \<times> string) list"
  jobs_calls :: "jobs_call list"
  notify_calls :: "(string option \<times> string option \<times> job list) list"
  outbox :: "message list"
  stdout :: "log_line list"

type_synonym 'a io = "world \<Rightarrow> (error + 'a) \<times> world"

text \<open>The career pages of one cycle: the postings of a board, or \<open>None\<close> when the request fails.\<close>

type_synonym source = "string \<Rightarrow> string \<Rightarrow> job list option"

section \<open>External calls\<close>

definition print :: "log_line \<Rightarrow> world \<Rightarrow> world" where
  "print l w = w\<lparr>stdout := stdout w @ [l]\<rparr>"

text \<open>A Firestore call consumes the next entry of \<open>db_faults\<close>; with none left it succeeds.\<close>

definition firestore_call :: "world \<Rightarrow> bool \<times> world" where
  "firestore_call w =
     (case db_faults w of
        [] \<Rightarrow> (False, w)
      | f # fs \<Rightarrow> (f, w\<lparr>db_faults := fs\<rparr>))"

definition smtp_session :: "world \<Rightarrow> smtp_outcome \<times> world" where
  "smtp_session w =
     (case smtp_faults w of
        [] \<Rightarrow> (SmtpOk, w)
      | f # fs \<Rightarrow> (f, w\<lparr>smtp_faults := fs\<rparr>))"

text \<open>\<open>db.collection('jobs').where('job_id', '==', jid).get()\<close>: the matching documents.\<close>

definition jobs_where :: "string \<Rightarrow> job list io" where
  "jobs_where jid w =
     (case firestore_call (w\<lparr>jobs_calls := jobs_calls w @ [Where_job_id jid]\<rparr>) of
        (True, w1) \<Rightarrow> (Inl FirestoreError, w1)
      | (False, w1) \<Rightarrow> (Inr (filter (\<lambda>d. job_id d = jid) (jobs_coll w1)), w1))"

text \<open>\<open>db.collection('jobs').add(job)\<close>: a new document; a call that raises stores nothing.\<close>

definition jobs_add :: "job \<Rightarrow> unit io" where
  "jobs_add j w =
     (case firestore_call (w\<lparr>jobs_calls := jobs_calls w @ [Add j]\<rparr>) of
        (True, w1) \<Rightarrow> (Inl FirestoreError, w1)
      | (False, w1) \<Rightarrow> (Inr (), w1\<lparr>jobs_coll := jobs_coll w1 @ [j]\<rparr>))"

section \<open>\<open>get_user_preferences\<close>\<close>

definition user_of_doc :: "user_doc \<Rightarrow> user" where
  "user_of_doc d =
     \<lparr>u_id = doc_id d, u_name = doc_name d, u_email = doc_email d,
      u_companies = (case doc_companies d of None \<Rightarrow> [] | Some cs \<Rightarrow> cs)\<rparr>"

definition get_user_preferences :: "user list io" where
  "get_user_preferences w =
     (case firestore_call w of
        (True, w1) \<Rightarrow> (Inl FirestoreError, w1)
      | (False, w1) \<Rightarrow> (Inr (map user_of_doc (users_coll w1)), w1))"

section \<open>\<open>create_html_table\<close> and \<open>send_email_notification\<close>\<close>

text \<open>
  The dict \<open>companies\<close> of lines 142-146, as an association list in insertion order:
  a company not yet a key gets the empty list, then the job is appended to its list.
\<close>

definition add_to_group :: "job \<Rightarrow> (string \<times> job list) list \<Rightarrow> (string \<times> job list) list" where
  "add_to_group j companies =
     (let companies1 =
            (if company j \<notin> set (map fst companies)
             then companies @ [(company j, [])] else companies)
      in map (\<lambda>(c, js). if c = company j then (c, js @ [j]) else (c, js)) companies1)"

fun group_by_company :: "job list \<Rightarrow> (string \<times> job list) list \<Rightarrow> (string \<times> job list) list" where
  "group_by_company [] companies = companies"
| "group_by_company (j # jobs) companies = group_by_company jobs (add_to_group j companies)"

definition job_row :: "job \<Rightarrow> html_row" where
  "job_row j = JobRow (title j) (location j) (url j)"

text \<open>\<open>companies[company]\<close> for a key taken from \<open>companies.keys()\<close>.\<close>

definition jobs_of_group :: "(string \<times> job list) list \<Rightarrow> string \<Rightarrow> job list" where
  "jobs_of_group companies c = (case map_of companies c of None \<Rightarrow> [] | Some js \<Rightarrow> js)"

text \<open>
  Lines 149-162: for each key in ascending order (Python compares strings by code point,
  which is the lexicographic order of their bytes) a header row, then the rows of its jobs.
\<close>

definition create_html_table :: "job list \<Rightarrow> html_row list" where
  "create_html_table jobs =
     (let companies = group_by_company jobs []
      in concat (map (\<lambda>c. CompanyHeader c # map job_row (jobs_of_group companies c))
                     (sort (map fst companies))))"

definition text_of_job :: "job \<Rightarrow> text_block" where
  "text_of_job j =
     \<lparr>tb_company = company j, tb_position = title j, tb_location = location j, tb_apply = url j\<rparr>"

definition build_message :: "string option \<Rightarrow> string option \<Rightarrow> job list \<Rightarrow> message" where
  "build_message recipient_email recipient_name jobs =
     \<lparr>msg_to = recipient_email, msg_name = recipient_name, msg_count = length jobs,
      msg_text = map text_of_job jobs, msg_html = create_html_table jobs\<rparr>"

definition send_email_notification ::
  "string option \<Rightarrow> string option \<Rightarrow> job list \<Rightarrow> world \<Rightarrow> world" where
  "send_email_notification recipient_email recipient_name jobs w =
     (let msg = build_message recipient_email recipient_name jobs;
          w0 = w\<lparr>notify_calls := notify_calls w @ [(recipient_email, recipient_name, jobs)]\<rparr>
      in case smtp_session w0 of
           (SmtpOk, w1) \<Rightarrow> print (EmailOk recipient_email) (w1\<lparr>outbox := outbox w1 @ [msg]\<rparr>)
         | (SmtpRaises, w1) \<Rightarrow> print (EmailError recipient_email) w1
         | (SmtpQuitRaises, w1) \<Rightarrow>
             print (EmailError recipient_email) (w1\<lparr>outbox := outbox w1 @ [msg]\<rparr>))"

section \<open>The scraper\<close>

text \<open>
  Modelled from the spec: \<open>scrape_greenhouse_jobs\<close> of the module \<open>greenhouse_scraper\<close>,
  which is not among the sources. The spec's Posting Source: one request for each call,
  and a request that fails is logged and gives the empty sequence instead of raising.
\<close>

definition scrape_greenhouse_jobs :: "source \<Rightarrow> string \<Rightarrow> string \<Rightarrow> world \<Rightarrow> job list \<times> world" where
  "scrape_greenhouse_jobs src company_name board_token w =
     (let w1 = w\<lparr>fetched := fetched w @ [(company_name, board_token)]\<rparr>
      in case src company_name board_token of
           None \<Rightarrow> ([], print (ScrapeFailed company_name) w1)
         | Some company_jobs \<Rightarrow> (company_jobs, w1))"

section \<open>\<open>scrape_jobs\<close>\<close>

text \<open>Lines 46-49; \<open>COMPANIES\<close> is the imported dict, given as its items in order.\<close>

fun scrape_all ::
  "source \<Rightarrow> (string \<times> string) list \<Rightarrow> (string \<rightharpoonup> job list) \<Rightarrow> world
   \<Rightarrow> (string \<rightharpoonup> job list) \<times> world" where
  "scrape_all src [] all_jobs w = (all_jobs, w)"
| "scrape_all src ((company_name, board_token) # rest) all_jobs w =
     (case scrape_greenhouse_jobs src company_name board_token (print (ScrapingFrom company_name) w) of
        (company_jobs, w1) \<Rightarrow> scrape_all src rest (all_jobs(company_name \<mapsto> company_jobs)) w1)"

text \<open>Lines 57-63: the loop over the jobs of one company.\<close>

fun new_jobs_of_company :: "job list \<Rightarrow> job list \<Rightarrow> job list io" where
  "new_jobs_of_company [] user_new_jobs w = (Inr user_new_jobs, w)"
| "new_jobs_of_company (j # company_jobs) user_new_jobs w =
     (case jobs_where (job_id j) w of
        (Inl e, w1) \<Rightarrow> (Inl e, w1)
      | (Inr job_ref, w1) \<Rightarrow>
          if job_ref = [] then
            (case jobs_add j w1 of
               (Inl e, w2) \<Rightarrow> (Inl e, w2)
             | (Inr _, w2) \<Rightarrow> new_jobs_of_company company_jobs (user_new_jobs @ [j]) w2)
          else new_jobs_of_company company_jobs user_new_jobs w1)"

text \<open>Lines 54-56: the loop over the companies of one user.\<close>

fun new_jobs_of_user :: "(string \<rightharpoonup> job list) \<Rightarrow> string list \<Rightarrow> job list \<Rightarrow> job list io" where
  "new_jobs_of_user all_jobs [] user_new_jobs w = (Inr user_new_jobs, w)"
| "new_jobs_of_user all_jobs (c # cs) user_new_jobs w =
     (case all_jobs c of
        None \<Rightarrow> new_jobs_of_user all_jobs cs user_new_jobs w
      | Some company_jobs \<Rightarrow>
          (case new_jobs_of_company company_jobs user_new_jobs w of
             (Inl e, w1) \<Rightarrow> (Inl e, w1)
           | (Inr user_new_jobs1, w1) \<Rightarrow> new_jobs_of_user all_jobs cs user_new_jobs1 w1))"

text \<open>Lines 65-70: the e-mail, or the line that says there is none.\<close>

definition notify_user :: "user \<Rightarrow> job list \<Rightarrow> world \<Rightarrow> world" where
  "notify_user u user_new_jobs w =
     (if user_new_jobs \<noteq> [] then
        print (SentEmail (u_email u) (length user_new_jobs))
          (send_email_notification (u_email u) (u_name u) user_new_jobs w)
      else print (NoNewJobs (u_email u)) w)"

text \<open>Lines 52-70: the loop over the users.\<close>

fun process_users :: "(string \<rightharpoonup> job list) \<Rightarrow> user list \<Rightarrow> unit io" where
  "process_users all_jobs [] w = (Inr (), w)"
| "process_users all_jobs (u # users) w =
     (case new_jobs_of_user all_jobs (u_companies u) [] w of
        (Inl e, w1) \<Rightarrow> (Inl e, w1)
      | (Inr user_new_jobs, w1) \<Rightarrow> process_users all_jobs users (notify_user u user_new_jobs w1))"

definition scrape_jobs :: "(string \<times> string) list \<Rightarrow> source \<Rightarrow> unit io" where
  "scrape_jobs COMPANIES src w =
     (case get_user_preferences w of
        (Inl e, w1) \<Rightarrow> (Inl e, w1)
      | (Inr users, w1) \<Rightarrow>
          if users = [] then (Inr (), print NoUsersFound w1)
          else (case scrape_all src COMPANIES Map.empty w1 of
                  (all_jobs, w2) \<Rightarrow> process_users all_jobs users w2))"

section \<open>Cycles\<close>

text \<open>
  The program runs once for each cycle. Between two cycles the collection \<open>users\<close>, the
  career pages and the faults to come are whatever the outside makes them; the collection
  \<open>jobs\<close> and the record of the program's effects are carried over.
\<close>

record cycle_env =
  env_source :: source
  env_users :: "user_doc list"
  env_db_faults :: "bool list"
  env_smtp_faults :: "smtp_outcome list"

definition enter_cycle :: "cycle_env \<Rightarrow> world \<Rightarrow> world" where
  "enter_cycle env w =
     w\<lparr>users_coll := env_users env, db_faults := env_db_faults env,
       smtp_faults := env_smtp_faults env\<rparr>"

definition run_cycle :: "(string \<times> string) list \<Rightarrow> cycle_env \<Rightarrow> world \<Rightarrow> world" where
  "run_cycle COMPANIES env w = snd (scrape_jobs COMPANIES (env_source env) (enter_cycle env w))"

fun run_cycles :: "(string \<times> string) list \<Rightarrow> cycle_env list \<Rightarrow> world \<Rightarrow> world" where
  "run_cycles COMPANIES [] w = w"
| "run_cycles COMPANIES (env # envs) w = run_cycles COMPANIES envs (run_cycle COMPANIES env w)"

section \<open>Notions used in the statements\<close>

text \<open>The identifiers the collection \<open>jobs\<close> holds.\<close>

definition seen_ids :: "world \<Rightarrow> string set" where
  "seen_ids w = job_id ` set (jobs_coll w)"

text \<open>The jobs the snapshot \<open>all_jobs\<close> holds under the companies \<open>cs\<close>, in the order of the loops.\<close>

definition offered :: "(string \<rightharpoonup> job list) \<Rightarrow> string list \<Rightarrow> job list" where
  "offered all_jobs cs = concat (map (\<lambda>c. case all_jobs c of None \<Rightarrow> [] | Some js \<Rightarrow> js) cs)"

text \<open>The dict \<open>all_jobs\<close> that the loop of lines 46-49 builds, whatever the world.\<close>

fun all_jobs_of :: "source \<Rightarrow> (string \<times> string) list \<Rightarrow> (string \<rightharpoonup> job list) \<Rightarrow> (string \<rightharpoonup> job list)" where
  "all_jobs_of src [] all_jobs = all_jobs"
| "all_jobs_of src ((company_name, board_token) # rest) all_jobs =
     all_jobs_of src rest
       (all_jobs(company_name \<mapsto> (case src company_name board_token of None \<Rightarrow> [] | Some js \<Rightarrow> js)))"

text \<open>The scraper files each job under its own company: \<open>job['company']\<close> is the board's name.\<close>

definition source_tags_company :: "source \<Rightarrow> bool" where
  "source_tags_company src \<longleftrightarrow> (\<forall>c t js j. src c t = Some js \<longrightarrow> j \<in> set js \<longrightarrow> company j = c)"


text \<open>
  What the engine itself reads and what it does to the store and to the notifier; two
  worlds agree when they have the same core and, with \<open>mail\<close>, also the same SMTP outcomes
  to come and the same messages delivered.
\<close>

definition core ::
  "world \<Rightarrow> user_doc list \<times> job list \<times> bool list \<times> (string \<times> string) list \<times> jobs_call list \<times>
            (string option \<times> string option \<times> job list) list" where
  "core w = (users_coll w, jobs_coll w, db_faults w, fetched w, jobs_calls w, notify_calls w)"

definition agree :: "bool \<Rightarrow> world \<Rightarrow> world \<Rightarrow> bool" where
  "agree mail w v \<longleftrightarrow>
     core w = core v \<and> (mail \<longrightarrow> smtp_faults w = smtp_faults v \<and> outbox w = outbox v)"

text \<open>
  What the SMTP sessions of a run do, read off the outcomes to come and the calls of
  \<open>send_email_notification\<close> in order: the outcome of the next session, the messages
  delivered, and the lines of lines 214 and 216.
\<close>

definition session_outcome :: "smtp_outcome list \<Rightarrow> smtp_outcome" where
  "session_outcome fs = (case fs of [] \<Rightarrow> SmtpOk | f # _ \<Rightarrow> f)"

fun delivered ::
  "smtp_outcome list \<Rightarrow> (string option \<times> string option \<times> job list) list \<Rightarrow> message list" where
  "delivered fs [] = []"
| "delivered fs ((e, n, js) # calls) =
     (if session_outcome fs = SmtpRaises then [] else [build_message e n js]) @
     delivered (tl fs) calls"

fun email_log ::
  "smtp_outcome list \<Rightarrow> (string option \<times> string option \<times> job list) list \<Rightarrow> log_line list" where
  "email_log fs [] = []"
| "email_log fs ((e, n, js) # calls) =
     (if session_outcome fs = SmtpOk then EmailOk e else EmailError e) # email_log (tl fs) calls"

fun is_email_line :: "log_line \<Rightarrow> bool" where
  "is_email_line (EmailOk e) = True"
| "is_email_line (EmailError e) = True"
| "is_email_line l = False"

section \<open>Example worlds\<close>

text \<open>Two boards, Acme and Globex, with one posting each; a store that starts empty.\<close>

definition acme_pm :: job where
  "acme_pm = \<lparr>job_id = ''a1'', company = ''Acme'', title = ''PM'', location = ''NY'', url = ''u1''\<rparr>"

definition globex_pm :: job where
  "globex_pm = \<lparr>job_id = ''g1'', company = ''Globex'', title = ''PM'', location = ''SF'', url = ''u2''\<rparr>"

definition example_companies :: "(string \<times> string) list" where
  "example_companies = [(''Acme'', ''acme''), (''Globex'', ''globex'')]"

text \<open>Only Acme has a posting; both boards have one; Acme's request fails.\<close>

definition example_source :: source where
  "example_source c t = (if c = ''Acme'' then Some [acme_pm] else Some [])"

definition both_source :: source where
  "both_source c t =
     (if c = ''Acme'' then Some [acme_pm] else if c = ''Globex'' then Some [globex_pm] else Some [])"



definition subscriber :: "string \<Rightarrow> string list \<Rightarrow> user_doc" where
  "subscriber n cs =
     \<lparr>doc_id = n, doc_name = Some n, doc_email = Some (n @ ''@example.org''),
      doc_companies = Some cs\<rparr>"


definition empty_world :: world where
  "empty_world =
     \<lparr>users_coll = [], jobs_coll = [], db_faults = [], smtp_faults = [], fetched = [],
      jobs_calls = [], notify_calls = [], outbox = [], stdout = []\<rparr>"

text \<open>Cycles without faults, on each of the two sources.\<close>

definition example_env :: "user_doc list \<Rightarrow> cycle_env" where
  "example_env docs =
     \<lparr>env_source = example_source, env_users = docs, env_db_faults = [], env_smtp_faults = []\<rparr>"

definition both_env :: "user_doc list \<Rightarrow> cycle_env" where
  "both_env docs =
     \<lparr>env_source = both_source, env_users = docs, env_db_faults = [], env_smtp_faults = []\<rparr>"

text \<open>Two boards named Alpha and Beta, one posting each.\<close>

definition alpha_job :: job where
  "alpha_job = \<lparr>job_id = ''al1'', company = ''Alpha'', title = ''PM'', location = ''NY'', url = ''ua''\<rparr>"

definition beta_job :: job where
  "beta_job = \<lparr>job_id = ''be1'', company = ''Beta'', title = ''PM'', location = ''LA'', url = ''ub''\<rparr>"

definition alpha_beta_source :: source where
  "alpha_beta_source c t =
     (if c = ''Alpha'' then Some [alpha_job] else if c = ''Beta'' then Some [beta_job] else Some [])"

section \<open>The calls on the collection \<open>jobs\<close>\<close>

lemma firestore_call_frame:
  "firestore_call w = (b, w1) \<Longrightarrow>
     users_coll w1 = users_coll w \<and> jobs_coll w1 = jobs_coll w \<and> smtp_faults w1 = smtp_faults w \<and>
     fetched w1 = fetched w \<and> jobs_calls w1 = jobs_calls w \<and> notify_calls w1 = notify_calls w \<and>
     outbox w1 = outbox w \<and> stdout w1 = stdout w"
  by (auto simp: firestore_call_def split: list.splits)

lemma jobs_where_frame:
  "jobs_where jid w = (r, w1) \<Longrightarrow>
     users_coll w1 = users_coll w \<and> jobs_coll w1 = jobs_coll w \<and> smtp_faults w1 = smtp_faults w \<and>
     fetched w1 = fetched w \<and> notify_calls w1 = notify_calls w \<and>
     outbox w1 = outbox w \<and> stdout w1 = stdout w"
  by (auto simp: jobs_where_def firestore_call_def split: list.splits bool.splits)

lemma jobs_where_result:
  "jobs_where jid w = (Inr job_ref, w1) \<Longrightarrow> job_ref = filter (\<lambda>d. job_id d = jid) (jobs_coll w)"
  by (auto simp: jobs_where_def firestore_call_def split: list.splits bool.splits)

lemma jobs_where_empty:
  "jobs_where jid w = (Inr job_ref, w1) \<Longrightarrow> (job_ref = []) = (jid \<notin> seen_ids w)"
  using jobs_where_result [of jid w job_ref w1]
  by (auto simp: seen_ids_def filter_empty_conv)

lemma jobs_add_frame:
  "jobs_add j w = (r, w1) \<Longrightarrow>
     users_coll w1 = users_coll w \<and> smtp_faults w1 = smtp_faults w \<and>
     fetched w1 = fetched w \<and> notify_calls w1 = notify_calls w \<and>
     outbox w1 = outbox w \<and> stdout w1 = stdout w"
  by (auto simp: jobs_add_def firestore_call_def split: list.splits bool.splits)

lemma jobs_add_coll:
  "jobs_add j w = (r, w1) \<Longrightarrow>
     jobs_coll w1 = (case r of Inl e \<Rightarrow> jobs_coll w | Inr x \<Rightarrow> jobs_coll w @ [j])"
  by (auto simp: jobs_add_def firestore_call_def split: list.splits bool.splits)

section \<open>The loops over jobs, companies and users\<close>

lemma new_jobs_of_company_frame:
  "new_jobs_of_company js acc w = (r, w1) \<Longrightarrow>
     users_coll w1 = users_coll w \<and> smtp_faults w1 = smtp_faults w \<and>
     fetched w1 = fetched w \<and> notify_calls w1 = notify_calls w \<and>
     outbox w1 = outbox w \<and> stdout w1 = stdout w"
proof (induction js arbitrary: acc w)
  case Nil
  then show ?case by simp
next
  case (Cons j js)
  show ?case
  proof (cases "jobs_where (job_id j) w")
    case (Pair q wq)
    note fq = jobs_where_frame [OF Pair]
    show ?thesis
    proof (cases q)
      case (Inl e)
      with Cons.prems Pair fq show ?thesis by simp
    next
      case (Inr job_ref)
      show ?thesis
      proof (cases "job_ref = []")
        case False
        with Cons.prems Pair Inr have "new_jobs_of_company js acc wq = (r, w1)" by simp
        from Cons.IH [OF this] fq show ?thesis by simp
      next
        case True
        show ?thesis
        proof (cases "jobs_add j wq")
          case (Pair a wa)
          note fa = jobs_add_frame [OF Pair]
          show ?thesis
          proof (cases a)
            case (Inl e)
            with Cons.prems \<open>jobs_where (job_id j) w = (q, wq)\<close> Inr True Pair fq fa
            show ?thesis by simp
          next
            case (Inr x)
            with Cons.prems \<open>jobs_where (job_id j) w = (q, wq)\<close> \<open>q = Inr job_ref\<close> True Pair
            have "new_jobs_of_company js (acc @ [j]) wa = (r, w1)" by simp
            from Cons.IH [OF this] fq fa show ?thesis by simp
          qed
        qed
      qed
    qed
  qed
qed

text \<open>What one pass over a company's jobs inserts is what it appends to the list.\<close>

lemma new_jobs_of_company_effect:
  "new_jobs_of_company js acc w = (r, w1) \<Longrightarrow>
     \<exists>new. jobs_coll w1 = jobs_coll w @ new \<and> set new \<subseteq> set js \<and>
           job_id ` set new \<inter> seen_ids w = {} \<and> distinct (map job_id new) \<and>
           (\<forall>acc1. r = Inr acc1 \<longrightarrow> acc1 = acc @ new)"
proof (induction js arbitrary: acc w)
  case Nil
  then show ?case by auto
next
  case (Cons j js)
  show ?case
  proof (cases "jobs_where (job_id j) w")
    case (Pair q wq)
    note fq = jobs_where_frame [OF Pair]
    show ?thesis
    proof (cases q)
      case (Inl e)
      with Cons.prems Pair fq show ?thesis by auto
    next
      case (Inr job_ref)
      note emp = jobs_where_empty [OF Pair [unfolded Inr]]
      show ?thesis
      proof (cases "job_ref = []")
        case False
        with Cons.prems Pair Inr have "new_jobs_of_company js acc wq = (r, w1)" by simp
        from Cons.IH [OF this] fq show ?thesis by (auto simp: seen_ids_def)
      next
        case True
        with emp have unseen: "job_id j \<notin> seen_ids w" by simp
        show ?thesis
        proof (cases "jobs_add j wq")
          case (Pair a wa)
          note ca = jobs_add_coll [OF Pair]
          show ?thesis
          proof (cases a)
            case (Inl e)
            with Cons.prems \<open>jobs_where (job_id j) w = (q, wq)\<close> Inr True Pair fq ca
            show ?thesis by auto
          next
            case (Inr x)
            with Cons.prems \<open>jobs_where (job_id j) w = (q, wq)\<close> \<open>q = Inr job_ref\<close> True Pair
            have "new_jobs_of_company js (acc @ [j]) wa = (r, w1)" by simp
            from Cons.IH [OF this] obtain new where
              n: "jobs_coll w1 = jobs_coll wa @ new" "set new \<subseteq> set js"
                 "job_id ` set new \<inter> seen_ids wa = {}" "distinct (map job_id new)"
                 "\<forall>acc1. r = Inr acc1 \<longrightarrow> acc1 = (acc @ [j]) @ new"
              by blast
            from ca Inr fq have wa: "jobs_coll wa = jobs_coll w @ [j]" by simp
            have "jobs_coll w1 = jobs_coll w @ (j # new)" using n(1) wa by simp
            moreover have "set (j # new) \<subseteq> set (j # js)" using n(2) by auto
            moreover have "job_id ` set (j # new) \<inter> seen_ids w = {}"
              using n(3) unseen wa by (auto simp: seen_ids_def)
            moreover have "distinct (map job_id (j # new))"
              using n(3,4) wa by (auto simp: seen_ids_def)
            moreover have "\<forall>acc1. r = Inr acc1 \<longrightarrow> acc1 = acc @ (j # new)" using n(5) by simp
            ultimately show ?thesis by blast
          qed
        qed
      qed
    qed
  qed
qed

lemma set_offered:
  "set (offered all_jobs cs) = {j. \<exists>c\<in>set cs. \<exists>js. all_jobs c = Some js \<and> j \<in> set js}"
  by (induction cs) (auto simp: offered_def split: option.splits)

lemma offered_Cons:
  "offered all_jobs (c # cs) = (case all_jobs c of None \<Rightarrow> [] | Some js \<Rightarrow> js) @ offered all_jobs cs"
  by (simp add: offered_def)

lemma new_jobs_of_user_frame:
  "new_jobs_of_user all_jobs cs acc w = (r, w1) \<Longrightarrow>
     users_coll w1 = users_coll w \<and> smtp_faults w1 = smtp_faults w \<and>
     fetched w1 = fetched w \<and> notify_calls w1 = notify_calls w \<and>
     outbox w1 = outbox w \<and> stdout w1 = stdout w"
proof (induction cs arbitrary: acc w)
  case Nil
  then show ?case by simp
next
  case (Cons c cs)
  show ?case
  proof (cases "all_jobs c")
    case None
    with Cons.prems have "new_jobs_of_user all_jobs cs acc w = (r, w1)" by simp
    from Cons.IH [OF this] show ?thesis .
  next
    case (Some company_jobs)
    show ?thesis
    proof (cases "new_jobs_of_company company_jobs acc w")
      case (Pair q wq)
      note fq = new_jobs_of_company_frame [OF Pair]
      show ?thesis
      proof (cases q)
        case (Inl e)
        with Cons.prems Some Pair fq show ?thesis by simp
      next
        case (Inr acc1)
        with Cons.prems Some Pair have "new_jobs_of_user all_jobs cs acc1 wq = (r, w1)" by simp
        from Cons.IH [OF this] fq show ?thesis by simp
      qed
    qed
  qed
qed

lemma new_jobs_of_user_effect:
  "new_jobs_of_user all_jobs cs acc w = (r, w1) \<Longrightarrow>
     \<exists>new. jobs_coll w1 = jobs_coll w @ new \<and> set new \<subseteq> set (offered all_jobs cs) \<and>
           job_id ` set new \<inter> seen_ids w = {} \<and> distinct (map job_id new) \<and>
           (\<forall>acc1. r = Inr acc1 \<longrightarrow> acc1 = acc @ new)"
proof (induction cs arbitrary: acc w)
  case Nil
  then show ?case by auto
next
  case (Cons c cs)
  show ?case
  proof (cases "all_jobs c")
    case None
    with Cons.prems have "new_jobs_of_user all_jobs cs acc w = (r, w1)" by simp
    from Cons.IH [OF this] None show ?thesis by (simp add: offered_Cons)
  next
    case (Some company_jobs)
    show ?thesis
    proof (cases "new_jobs_of_company company_jobs acc w")
      case (Pair q wq)
      from new_jobs_of_company_effect [OF Pair] obtain n1 where
        n1: "jobs_coll wq = jobs_coll w @ n1" "set n1 \<subseteq> set company_jobs"
            "job_id ` set n1 \<inter> seen_ids w = {}" "distinct (map job_id n1)"
            "\<forall>acc1. q = Inr acc1 \<longrightarrow> acc1 = acc @ n1"
        by blast
      show ?thesis
      proof (cases q)
        case (Inl e)
        with Cons.prems Some Pair have "r = Inl e" "w1 = wq" by simp_all
        with n1 Some show ?thesis by (auto simp: offered_Cons)
      next
        case (Inr acc1)
        with Cons.prems Some Pair have "new_jobs_of_user all_jobs cs acc1 wq = (r, w1)" by simp
        from Cons.IH [OF this] obtain n2 where
          n2: "jobs_coll w1 = jobs_coll wq @ n2" "set n2 \<subseteq> set (offered all_jobs cs)"
              "job_id ` set n2 \<inter> seen_ids wq = {}" "distinct (map job_id n2)"
              "\<forall>acc2. r = Inr acc2 \<longrightarrow> acc2 = acc1 @ n2"
          by blast
        from n1(5) Inr have acc1: "acc1 = acc @ n1" by simp
        have seen: "seen_ids wq = seen_ids w \<union> job_id ` set n1"
          using n1(1) by (auto simp: seen_ids_def)
        have "jobs_coll w1 = jobs_coll w @ (n1 @ n2)" using n1(1) n2(1) by simp
        moreover have "set (n1 @ n2) \<subseteq> set (offered all_jobs (c # cs))"
          using n1(2) n2(2) Some by (auto simp: offered_Cons)
        moreover have "job_id ` set (n1 @ n2) \<inter> seen_ids w = {}"
          using n1(3) n2(3) seen by auto
        moreover have "distinct (map job_id (n1 @ n2))"
          using n1(4) n2(3,4) seen by auto
        moreover have "\<forall>acc2. r = Inr acc2 \<longrightarrow> acc2 = acc @ (n1 @ n2)"
          using n2(5) acc1 by simp
        ultimately show ?thesis by blast
      qed
    qed
  qed
qed

lemma send_email_notification_frame:
  "users_coll (send_email_notification e n js w) = users_coll w \<and>
   jobs_coll (send_email_notification e n js w) = jobs_coll w \<and>
   db_faults (send_email_notification e n js w) = db_faults w \<and>
   fetched (send_email_notification e n js w) = fetched w \<and>
   jobs_calls (send_email_notification e n js w) = jobs_calls w \<and>
   notify_calls (send_email_notification e n js w) = notify_calls w @ [(e, n, js)]"
  by (simp add: send_email_notification_def smtp_session_def print_def Let_def
           split: list.splits smtp_outcome.splits)

lemma notify_user_frame:
  "users_coll (notify_user u js w) = users_coll w \<and>
   jobs_coll (notify_user u js w) = jobs_coll w \<and>
   db_faults (notify_user u js w) = db_faults w \<and>
   fetched (notify_user u js w) = fetched w \<and>
   jobs_calls (notify_user u js w) = jobs_calls w"
  by (simp add: notify_user_def print_def send_email_notification_frame)

lemma notify_user_calls:
  "notify_calls (notify_user u js w) =
     notify_calls w @ (if js = [] then [] else [(u_email u, u_name u, js)])"
  by (simp add: notify_user_def print_def send_email_notification_frame)

lemma process_users_frame:
  "process_users all_jobs us w = (r, w1) \<Longrightarrow>
     users_coll w1 = users_coll w \<and> fetched w1 = fetched w"
proof (induction us arbitrary: w)
  case Nil
  then show ?case by simp
next
  case (Cons u us)
  show ?case
  proof (cases "new_jobs_of_user all_jobs (u_companies u) [] w")
    case (Pair q wq)
    note fq = new_jobs_of_user_frame [OF Pair]
    show ?thesis
    proof (cases q)
      case (Inl e)
      with Cons.prems Pair fq show ?thesis by simp
    next
      case (Inr js)
      with Cons.prems Pair have "process_users all_jobs us (notify_user u js wq) = (r, w1)" by simp
      from Cons.IH [OF this] fq show ?thesis by (simp add: notify_user_frame)
    qed
  qed
qed

text \<open>
  One pass over the users: the jobs inserted are new to the store and pairwise different
  in their identifiers; each call of \<open>send_email_notification\<close> carries a non-empty list of
  jobs inserted in this pass, offered under the companies of the user it is made for.
\<close>

lemma process_users_effect:
  "process_users all_jobs us w = (r, w1) \<Longrightarrow>
     \<exists>new calls.
        jobs_coll w1 = jobs_coll w @ new \<and>
        job_id ` set new \<inter> seen_ids w = {} \<and> distinct (map job_id new) \<and>
        set new \<subseteq> (\<Union>u\<in>set us. set (offered all_jobs (u_companies u))) \<and>
        notify_calls w1 = notify_calls w @ calls \<and>
        (\<forall>(e, n, js) \<in> set calls. js \<noteq> [] \<and> set js \<subseteq> set new \<and>
           (\<exists>u\<in>set us. e = u_email u \<and> n = u_name u \<and>
                         set js \<subseteq> set (offered all_jobs (u_companies u))))"
proof (induction us arbitrary: w)
  case Nil
  then show ?case by auto
next
  case (Cons u us)
  show ?case
  proof (cases "new_jobs_of_user all_jobs (u_companies u) [] w")
    case (Pair q wq)
    note fq = new_jobs_of_user_frame [OF Pair]
    from new_jobs_of_user_effect [OF Pair] obtain n1 where
      n1: "jobs_coll wq = jobs_coll w @ n1" "set n1 \<subseteq> set (offered all_jobs (u_companies u))"
          "job_id ` set n1 \<inter> seen_ids w = {}" "distinct (map job_id n1)"
          "\<forall>acc1. q = Inr acc1 \<longrightarrow> acc1 = [] @ n1"
      by blast
    show ?thesis
    proof (cases q)
      case (Inl e)
      with Cons.prems Pair have "r = Inl e" "w1 = wq" by simp_all
      with n1 fq have
        "jobs_coll w1 = jobs_coll w @ n1 \<and>
         job_id ` set n1 \<inter> seen_ids w = {} \<and> distinct (map job_id n1) \<and>
         set n1 \<subseteq> (\<Union>u\<in>set (u # us). set (offered all_jobs (u_companies u))) \<and>
         notify_calls w1 = notify_calls w @ [] \<and>
         (\<forall>(e, n, js) \<in> set []. js \<noteq> [] \<and> set js \<subseteq> set n1 \<and>
           (\<exists>u\<in>set (u # us). e = u_email u \<and> n = u_name u \<and>
                         set js \<subseteq> set (offered all_jobs (u_companies u))))"
        by auto
      then show ?thesis by blast
    next
      case (Inr js)
      with n1(5) have js: "js = n1" by simp
      define wn where "wn = notify_user u js wq"
      from Cons.prems Pair Inr have "process_users all_jobs us wn = (r, w1)"
        by (simp add: wn_def)
      from Cons.IH [OF this] obtain n2 c2 where
        n2: "jobs_coll w1 = jobs_coll wn @ n2" "job_id ` set n2 \<inter> seen_ids wn = {}"
            "distinct (map job_id n2)"
            "set n2 \<subseteq> (\<Union>u\<in>set us. set (offered all_jobs (u_companies u)))"
            "notify_calls w1 = notify_calls wn @ c2"
            "\<forall>(e, n, js) \<in> set c2. js \<noteq> [] \<and> set js \<subseteq> set n2 \<and>
               (\<exists>u\<in>set us. e = u_email u \<and> n = u_name u \<and>
                         set js \<subseteq> set (offered all_jobs (u_companies u)))"
        by blast
      have wn_coll: "jobs_coll wn = jobs_coll w @ n1"
        using n1(1) by (simp add: wn_def notify_user_frame)
      have seen: "seen_ids wn = seen_ids w \<union> job_id ` set n1"
        using wn_coll by (auto simp: seen_ids_def)
      define c1 where "c1 = (if js = [] then [] else [(u_email u, u_name u, js)])"
      have wn_calls: "notify_calls wn = notify_calls w @ c1"
        using fq by (simp add: wn_def c1_def notify_user_calls)
      have "jobs_coll w1 = jobs_coll w @ (n1 @ n2)" using n2(1) wn_coll by simp
      moreover have "job_id ` set (n1 @ n2) \<inter> seen_ids w = {}"
        using n1(3) n2(2) seen by auto
      moreover have "distinct (map job_id (n1 @ n2))"
        using n1(4) n2(2,3) seen by auto
      moreover have "set (n1 @ n2) \<subseteq> (\<Union>u\<in>set (u # us). set (offered all_jobs (u_companies u)))"
        using n1(2) n2(4) by auto
      moreover have "notify_calls w1 = notify_calls w @ (c1 @ c2)"
        using n2(5) wn_calls by simp
      moreover have "\<forall>(e, n, js) \<in> set (c1 @ c2). js \<noteq> [] \<and> set js \<subseteq> set (n1 @ n2) \<and>
           (\<exists>u\<in>set (u # us). e = u_email u \<and> n = u_name u \<and>
                         set js \<subseteq> set (offered all_jobs (u_companies u)))"
      proof -
        have "\<forall>(e, n, js) \<in> set c1. js \<noteq> [] \<and> set js \<subseteq> set (n1 @ n2) \<and>
           (\<exists>u\<in>set (u # us). e = u_email u \<and> n = u_name u \<and>
                         set js \<subseteq> set (offered all_jobs (u_companies u)))"
          using js n1(2) by (auto simp: c1_def)
        moreover have "\<forall>(e, n, js) \<in> set c2. js \<noteq> [] \<and> set js \<subseteq> set (n1 @ n2) \<and>
           (\<exists>u\<in>set (u # us). e = u_email u \<and> n = u_name u \<and>
                         set js \<subseteq> set (offered all_jobs (u_companies u)))"
          using n2(6) by fastforce
        ultimately show ?thesis by auto
      qed
      ultimately show ?thesis by blast
    qed
  qed
qed

section \<open>The loop over the boards\<close>

lemma scrape_greenhouse_jobs_result:
  "fst (scrape_greenhouse_jobs src c t w) = (case src c t of None \<Rightarrow> [] | Some js \<Rightarrow> js)"
  by (simp add: scrape_greenhouse_jobs_def Let_def split: option.splits)

lemma scrape_greenhouse_jobs_frame:
  "users_coll (snd (scrape_greenhouse_jobs src c t w)) = users_coll w \<and>
   jobs_coll (snd (scrape_greenhouse_jobs src c t w)) = jobs_coll w \<and>
   db_faults (snd (scrape_greenhouse_jobs src c t w)) = db_faults w \<and>
   smtp_faults (snd (scrape_greenhouse_jobs src c t w)) = smtp_faults w \<and>
   jobs_calls (snd (scrape_greenhouse_jobs src c t w)) = jobs_calls w \<and>
   notify_calls (snd (scrape_greenhouse_jobs src c t w)) = notify_calls w \<and>
   outbox (snd (scrape_greenhouse_jobs src c t w)) = outbox w \<and>
   fetched (snd (scrape_greenhouse_jobs src c t w)) = fetched w @ [(c, t)]"
  by (simp add: scrape_greenhouse_jobs_def Let_def print_def split: option.splits)

lemma scrape_all_result:
  "fst (scrape_all src COMPANIES all_jobs w) = all_jobs_of src COMPANIES all_jobs"
proof (induction COMPANIES arbitrary: all_jobs w)
  case Nil
  show ?case by simp
next
  case (Cons p rest)
  obtain c t where p: "p = (c, t)" by (cases p)
  obtain js w1 where s: "scrape_greenhouse_jobs src c t (print (ScrapingFrom c) w) = (js, w1)"
    by (cases "scrape_greenhouse_jobs src c t (print (ScrapingFrom c) w)")
  from scrape_greenhouse_jobs_result [of src c t "print (ScrapingFrom c) w"] s
  have js: "js = (case src c t of None \<Rightarrow> [] | Some js \<Rightarrow> js)" by simp
  have "fst (scrape_all src (p # rest) all_jobs w) = fst (scrape_all src rest (all_jobs(c \<mapsto> js)) w1)"
    by (simp add: p s)
  also have "\<dots> = all_jobs_of src rest (all_jobs(c \<mapsto> js))" by (rule Cons.IH)
  also have "\<dots> = all_jobs_of src (p # rest) all_jobs" unfolding p js by simp
  finally show ?case .
qed

lemma scrape_all_frame:
  "users_coll (snd (scrape_all src COMPANIES all_jobs w)) = users_coll w \<and>
   jobs_coll (snd (scrape_all src COMPANIES all_jobs w)) = jobs_coll w \<and>
   db_faults (snd (scrape_all src COMPANIES all_jobs w)) = db_faults w \<and>
   smtp_faults (snd (scrape_all src COMPANIES all_jobs w)) = smtp_faults w \<and>
   jobs_calls (snd (scrape_all src COMPANIES all_jobs w)) = jobs_calls w \<and>
   notify_calls (snd (scrape_all src COMPANIES all_jobs w)) = notify_calls w \<and>
   outbox (snd (scrape_all src COMPANIES all_jobs w)) = outbox w \<and>
   fetched (snd (scrape_all src COMPANIES all_jobs w)) = fetched w @ COMPANIES"
proof (induction COMPANIES arbitrary: all_jobs w)
  case Nil
  show ?case by simp
next
  case (Cons p rest)
  obtain c t where p: "p = (c, t)" by (cases p)
  obtain js w1 where s: "scrape_greenhouse_jobs src c t (print (ScrapingFrom c) w) = (js, w1)"
    by (cases "scrape_greenhouse_jobs src c t (print (ScrapingFrom c) w)")
  from scrape_greenhouse_jobs_frame [of src c t "print (ScrapingFrom c) w"] s
  have f: "users_coll w1 = users_coll w \<and> jobs_coll w1 = jobs_coll w \<and>
     db_faults w1 = db_faults w \<and> smtp_faults w1 = smtp_faults w \<and>
     jobs_calls w1 = jobs_calls w \<and> notify_calls w1 = notify_calls w \<and>
     outbox w1 = outbox w \<and> fetched w1 = fetched w @ [(c, t)]"
    by (simp add: print_def)
  define m where "m = all_jobs(c \<mapsto> js)"
  have step: "scrape_all src (p # rest) all_jobs w = scrape_all src rest m w1"
    by (simp add: p s m_def)
  note ih = Cons.IH [of m w1]
  show ?case unfolding step using ih f by (simp add: p)
qed

section \<open>One run, and many\<close>

lemma get_user_preferences_frame:
  "get_user_preferences w = (q, wq) \<Longrightarrow>
     users_coll wq = users_coll w \<and> jobs_coll wq = jobs_coll w \<and> smtp_faults wq = smtp_faults w \<and>
     fetched wq = fetched w \<and> jobs_calls wq = jobs_calls w \<and> notify_calls wq = notify_calls w \<and>
     outbox wq = outbox w \<and> stdout wq = stdout w"
  by (auto simp: get_user_preferences_def firestore_call_def split: list.splits bool.splits)

lemma get_user_preferences_result:
  "get_user_preferences w = (Inr us, wq) \<Longrightarrow> us = map user_of_doc (users_coll w)"
  by (auto simp: get_user_preferences_def firestore_call_def split: list.splits bool.splits)

text \<open>The effect of one run of \<open>scrape_jobs\<close> on the store and on the notifier.\<close>

lemma scrape_jobs_effect:
  assumes "scrape_jobs COMPANIES src w = (r, w1)"
  shows "\<exists>new calls.
        jobs_coll w1 = jobs_coll w @ new \<and>
        job_id ` set new \<inter> seen_ids w = {} \<and> distinct (map job_id new) \<and>
        set new \<subseteq> (\<Union>u\<in>set (map user_of_doc (users_coll w)).
                       set (offered (all_jobs_of src COMPANIES Map.empty) (u_companies u))) \<and>
        notify_calls w1 = notify_calls w @ calls \<and>
        (\<forall>(e, n, js) \<in> set calls. js \<noteq> [] \<and> set js \<subseteq> set new \<and>
           (\<exists>u\<in>set (map user_of_doc (users_coll w)). e = u_email u \<and> n = u_name u \<and>
               set js \<subseteq> set (offered (all_jobs_of src COMPANIES Map.empty) (u_companies u))))"
proof (cases "get_user_preferences w")
  case (Pair q wq)
  note fq = get_user_preferences_frame [OF Pair]
  have trivial: ?thesis if "jobs_coll w1 = jobs_coll w" "notify_calls w1 = notify_calls w"
  proof -
    have "jobs_coll w1 = jobs_coll w @ [] \<and>
        job_id ` set [] \<inter> seen_ids w = {} \<and> distinct (map job_id []) \<and>
        set [] \<subseteq> (\<Union>u\<in>set (map user_of_doc (users_coll w)).
                       set (offered (all_jobs_of src COMPANIES Map.empty) (u_companies u))) \<and>
        notify_calls w1 = notify_calls w @ [] \<and>
        (\<forall>(e, n, js) \<in> set []. js \<noteq> [] \<and> set js \<subseteq> set [] \<and>
           (\<exists>u\<in>set (map user_of_doc (users_coll w)). e = u_email u \<and> n = u_name u \<and>
               set js \<subseteq> set (offered (all_jobs_of src COMPANIES Map.empty) (u_companies u))))"
      using that by simp
    then show ?thesis by blast
  qed
  show ?thesis
  proof (cases q)
    case (Inl e)
    with assms Pair have "w1 = wq" by (simp add: scrape_jobs_def)
    with fq show ?thesis by (intro trivial) simp_all
  next
    case (Inr us)
    with Pair have us: "us = map user_of_doc (users_coll w)"
      by (simp add: get_user_preferences_result)
    show ?thesis
    proof (cases "us = []")
      case True
      with assms Pair Inr have "w1 = print NoUsersFound wq" by (simp add: scrape_jobs_def)
      with fq show ?thesis by (intro trivial) (simp_all add: print_def)
    next
      case False
      define w2 where "w2 = snd (scrape_all src COMPANIES Map.empty wq)"
      have sa: "scrape_all src COMPANIES Map.empty wq = (all_jobs_of src COMPANIES Map.empty, w2)"
        using scrape_all_result [of src COMPANIES Map.empty wq]
        by (simp add: w2_def prod_eq_iff)
      from assms Pair Inr False sa
      have pu: "process_users (all_jobs_of src COMPANIES Map.empty) us w2 = (r, w1)"
        by (simp add: scrape_jobs_def)
      have f2: "jobs_coll w2 = jobs_coll w" "notify_calls w2 = notify_calls w"
        using scrape_all_frame [of src COMPANIES Map.empty wq] fq by (simp_all add: w2_def)
      then have "seen_ids w2 = seen_ids w" by (simp add: seen_ids_def)
      with process_users_effect [OF pu] f2 us show ?thesis by simp
    qed
  qed
qed

lemma run_cycle_effect:
  "\<exists>new calls.
        jobs_coll (run_cycle COMPANIES env w) = jobs_coll w @ new \<and>
        job_id ` set new \<inter> seen_ids w = {} \<and> distinct (map job_id new) \<and>
        notify_calls (run_cycle COMPANIES env w) = notify_calls w @ calls \<and>
        (\<forall>(e, n, js) \<in> set calls. job_id ` set js \<inter> seen_ids w = {})"
proof -
  define w0 where "w0 = enter_cycle env w"
  obtain r w1 where s: "scrape_jobs COMPANIES (env_source env) w0 = (r, w1)"
    by (cases "scrape_jobs COMPANIES (env_source env) w0")
  have e: "jobs_coll w0 = jobs_coll w" "notify_calls w0 = notify_calls w" "seen_ids w0 = seen_ids w"
    by (simp_all add: w0_def enter_cycle_def seen_ids_def)
  have rc: "run_cycle COMPANIES env w = w1"
    using s by (simp add: run_cycle_def w0_def)
  from scrape_jobs_effect [OF s] obtain new calls where
    n: "jobs_coll w1 = jobs_coll w0 @ new" "job_id ` set new \<inter> seen_ids w0 = {}"
       "distinct (map job_id new)"
       "set new \<subseteq> (\<Union>u\<in>set (map user_of_doc (users_coll w0)).
           set (offered (all_jobs_of (env_source env) COMPANIES Map.empty) (u_companies u)))"
       "notify_calls w1 = notify_calls w0 @ calls"
    and c0: "\<forall>(e, n, js) \<in> set calls. js \<noteq> [] \<and> set js \<subseteq> set new \<and>
           (\<exists>u\<in>set (map user_of_doc (users_coll w0)). e = u_email u \<and> n = u_name u \<and>
               set js \<subseteq> set (offered (all_jobs_of (env_source env) COMPANIES Map.empty) (u_companies u)))"
    by blast
  have c: "set js \<subseteq> set new" if "(e, n, js) \<in> set calls" for e n js
    using bspec [OF c0 that] by simp
  have d: "job_id ` set js \<inter> seen_ids w = {}" if "(e, n, js) \<in> set calls" for e n js
    using c [OF that] n(2) e(3) by blast
  have dd: "\<forall>(e, n, js) \<in> set calls. job_id ` set js \<inter> seen_ids w = {}"
    using d by (simp add: split_beta Ball_def)
  have n1: "jobs_coll w1 = jobs_coll w @ new" using n(1) e(1) by simp
  have n2: "job_id ` set new \<inter> seen_ids w = {}" using n(2) e(3) by simp
  have n3: "notify_calls w1 = notify_calls w @ calls" using n(5) e(2) by simp
  show ?thesis unfolding rc
    by (rule exI [of _ new], rule exI [of _ calls]) (intro conjI n1 n2 n(3) n3 dd)
qed

lemma run_cycles_effect:
  "\<exists>new calls.
        jobs_coll (run_cycles COMPANIES envs w) = jobs_coll w @ new \<and>
        job_id ` set new \<inter> seen_ids w = {} \<and> distinct (map job_id new) \<and>
        notify_calls (run_cycles COMPANIES envs w) = notify_calls w @ calls \<and>
        (\<forall>(e, n, js) \<in> set calls. job_id ` set js \<inter> seen_ids w = {})"
proof (induction envs arbitrary: w)
  case Nil
  show ?case
    by (rule exI [of _ "[]"], rule exI [of _ "[]"]) simp
next
  case (Cons env envs)
  define w1 where "w1 = run_cycle COMPANIES env w"
  from run_cycle_effect [of COMPANIES env w] obtain n1 c1 where
    a: "jobs_coll w1 = jobs_coll w @ n1" "job_id ` set n1 \<inter> seen_ids w = {}"
       "distinct (map job_id n1)" "notify_calls w1 = notify_calls w @ c1"
       "\<forall>(e, n, js) \<in> set c1. job_id ` set js \<inter> seen_ids w = {}"
    unfolding w1_def by blast
  from Cons.IH [of w1] obtain n2 c2 where
    b: "jobs_coll (run_cycles COMPANIES envs w1) = jobs_coll w1 @ n2"
       "job_id ` set n2 \<inter> seen_ids w1 = {}"
       "distinct (map job_id n2)"
       "notify_calls (run_cycles COMPANIES envs w1) = notify_calls w1 @ c2"
       "\<forall>(e, n, js) \<in> set c2. job_id ` set js \<inter> seen_ids w1 = {}"
    by blast
  have seen: "seen_ids w1 = seen_ids w \<union> job_id ` set n1"
    using a(1) by (auto simp: seen_ids_def)
  have r: "run_cycles COMPANIES (env # envs) w = run_cycles COMPANIES envs w1"
    by (simp add: w1_def)
  have g1: "jobs_coll (run_cycles COMPANIES (env # envs) w) = jobs_coll w @ (n1 @ n2)"
    using a(1) b(1) r by simp
  have g2: "job_id ` set (n1 @ n2) \<inter> seen_ids w = {}"
    using a(2) b(2) seen by auto
  have g3: "distinct (map job_id (n1 @ n2))"
    using a(3) b(2,3) seen by auto
  have g4: "notify_calls (run_cycles COMPANIES (env # envs) w) = notify_calls w @ (c1 @ c2)"
    using a(4) b(4) r by simp
  have g5: "\<forall>(e, n, js) \<in> set (c1 @ c2). job_id ` set js \<inter> seen_ids w = {}"
  proof -
    have "job_id ` set js \<inter> seen_ids w = {}" if "(e, n, js) \<in> set c2" for e n js
      using bspec [OF b(5) that] seen by auto
    then have "\<forall>(e, n, js) \<in> set c2. job_id ` set js \<inter> seen_ids w = {}"
      by (simp add: split_beta Ball_def)
    with a(5) show ?thesis by (simp add: ball_Un)
  qed
  show ?case
    by (rule exI [of _ "n1 @ n2"], rule exI [of _ "c1 @ c2"]) (intro conjI g1 g2 g3 g4 g5)
qed

section \<open>Storage and notification across cycles\<close>

lemmas run_defs =
  run_cycle_def enter_cycle_def scrape_jobs_def get_user_preferences_def firestore_call_def
  user_of_doc_def print_def scrape_greenhouse_jobs_def jobs_where_def jobs_add_def
  notify_user_def send_email_notification_def smtp_session_def

lemmas example_defs =
  acme_pm_def example_companies_def example_source_def subscriber_def empty_world_def
  example_env_def

lemma distinct_ids_count:
  "distinct (map job_id xs) \<Longrightarrow> length (filter (\<lambda>d. job_id d = i) xs) \<le> 1"
proof (induction xs)
  case Nil
  show ?case by simp
next
  case (Cons x xs)
  show ?case
  proof (cases "job_id x = i")
    case True
    with Cons.prems have "filter (\<lambda>d. job_id d = i) xs = []"
      by (force simp: filter_empty_conv image_iff)
    with True show ?thesis by simp
  next
    case False
    with Cons show ?thesis by simp
  qed
qed

text \<open>
  C2. Whatever the cycles, the records they add to the store carry identifiers the store
  did not hold and that differ from one another; so a store that holds each identifier at
  most once still does after any number of cycles, also when the source returns the same
  posting in every cycle.
\<close>

theorem no_duplicate_storage:
  "\<exists>new. jobs_coll (run_cycles COMPANIES envs w) = jobs_coll w @ new \<and>
         job_id ` set new \<inter> seen_ids w = {} \<and> distinct (map job_id new) \<and>
         (distinct (map job_id (jobs_coll w)) \<longrightarrow>
            (\<forall>i. length (filter (\<lambda>d. job_id d = i) (jobs_coll (run_cycles COMPANIES envs w))) \<le> 1))"
proof -
  from run_cycles_effect [of COMPANIES envs w] obtain new where
    n: "jobs_coll (run_cycles COMPANIES envs w) = jobs_coll w @ new"
       "job_id ` set new \<inter> seen_ids w = {}" "distinct (map job_id new)"
    by blast
  have "\<forall>i. length (filter (\<lambda>d. job_id d = i) (jobs_coll (run_cycles COMPANIES envs w))) \<le> 1"
    if d: "distinct (map job_id (jobs_coll w))"
  proof
    fix i
    have "distinct (map job_id (jobs_coll w @ new))"
      using d n(2,3) by (auto simp: seen_ids_def)
    then have "length (filter (\<lambda>d. job_id d = i) (jobs_coll w @ new)) \<le> 1"
      by (rule distinct_ids_count)
    then show "length (filter (\<lambda>d. job_id d = i) (jobs_coll (run_cycles COMPANIES envs w))) \<le> 1"
      using n(1) by simp
  qed
  with n show ?thesis by blast
qed

theorem no_duplicate_storage_witness:
  "distinct (map job_id (jobs_coll empty_world)) \<and>
   jobs_coll (run_cycles example_companies
      [example_env [subscriber ''alice'' [''Acme'']], example_env [subscriber ''alice'' [''Acme'']]]
      empty_world) = [acme_pm] \<and>
   length (filter (\<lambda>d. job_id d = ''a1'')
     (jobs_coll (run_cycles example_companies
      [example_env [subscriber ''alice'' [''Acme'']], example_env [subscriber ''alice'' [''Acme'']]]
      empty_world))) \<le> 1"
proof -
  have h: "distinct (map job_id (jobs_coll empty_world))"
    by (simp add: empty_world_def)
  from no_duplicate_storage
    [of example_companies
      "[example_env [subscriber ''alice'' [''Acme'']], example_env [subscriber ''alice'' [''Acme'']]]"
      empty_world] h
  have "length (filter (\<lambda>d. job_id d = ''a1'')
     (jobs_coll (run_cycles example_companies
      [example_env [subscriber ''alice'' [''Acme'']], example_env [subscriber ''alice'' [''Acme'']]]
      empty_world))) \<le> 1"
    by blast
  moreover have "jobs_coll (run_cycles example_companies
      [example_env [subscriber ''alice'' [''Acme'']], example_env [subscriber ''alice'' [''Acme'']]]
      empty_world) = [acme_pm]"
    by (simp add: run_defs example_defs)
  ultimately show ?thesis using h by simp
qed

text \<open>
  C3. A posting that the store holds after a cycle, so also one inserted during that
  cycle, is in no list handed to \<open>send_email_notification\<close> in any later cycle, whatever
  the source returns there: no job of such a list has its identifier.
\<close>

theorem not_new_after_insert:
  assumes "p \<in> set (jobs_coll (run_cycle COMPANIES env w))"
  shows "\<exists>later.
           notify_calls (run_cycles COMPANIES envs (run_cycle COMPANIES env w)) =
             notify_calls (run_cycle COMPANIES env w) @ later \<and>
           (\<forall>(e, n, js) \<in> set later. job_id p \<notin> job_id ` set js)"
proof -
  define w1 where "w1 = run_cycle COMPANIES env w"
  from run_cycles_effect [of COMPANIES envs w1] obtain later where
    l: "notify_calls (run_cycles COMPANIES envs w1) = notify_calls w1 @ later"
       "\<forall>(e, n, js) \<in> set later. job_id ` set js \<inter> seen_ids w1 = {}"
    by blast
  from assms have p: "job_id p \<in> seen_ids w1"
    by (simp add: w1_def seen_ids_def)
  have "job_id p \<notin> job_id ` set js" if "(e, n, js) \<in> set later" for e n js
    using bspec [OF l(2) that] p by auto
  then have "\<forall>(e, n, js) \<in> set later. job_id p \<notin> job_id ` set js"
    by (simp add: split_beta Ball_def)
  with l(1) show ?thesis unfolding w1_def by blast
qed

theorem not_new_after_insert_witness:
  "acme_pm \<in> set (jobs_coll (run_cycle example_companies
       (example_env [subscriber ''alice'' [''Acme'']]) empty_world)) \<and>
   notify_calls (run_cycle example_companies
       (example_env [subscriber ''alice'' [''Acme'']]) empty_world) =
     [(Some ''alice@example.org'', Some ''alice'', [acme_pm])] \<and>
   (\<exists>later.
      notify_calls (run_cycles example_companies
          [example_env [subscriber ''alice'' [''Acme''], subscriber ''bob'' [''Acme'']]]
          (run_cycle example_companies (example_env [subscriber ''alice'' [''Acme'']]) empty_world)) =
        notify_calls (run_cycle example_companies
          (example_env [subscriber ''alice'' [''Acme'']]) empty_world) @ later \<and>
      (\<forall>(e, n, js) \<in> set later. job_id acme_pm \<notin> job_id ` set js))"
proof -
  have h: "acme_pm \<in> set (jobs_coll (run_cycle example_companies
       (example_env [subscriber ''alice'' [''Acme'']]) empty_world))"
    by (simp add: run_defs example_defs)
  have c: "notify_calls (run_cycle example_companies
       (example_env [subscriber ''alice'' [''Acme'']]) empty_world) =
     [(Some ''alice@example.org'', Some ''alice'', [acme_pm])]"
    by (simp add: run_defs example_defs)
  from not_new_after_insert [OF h] h c show ?thesis by blast
qed

text \<open>
  C5. When the listing of the users succeeds and is empty, \<open>scrape_jobs\<close> returns without
  an error after printing one line: no board is requested, no call is made on the
  collection \<open>jobs\<close>, which stays as it was, and no e-mail is attempted or delivered.
\<close>

theorem no_subscribers_noop:
  assumes "get_user_preferences w = (Inr [], w1)"
  shows "fst (scrape_jobs COMPANIES src w) = Inr () \<and>
         fetched (snd (scrape_jobs COMPANIES src w)) = fetched w \<and>
         jobs_coll (snd (scrape_jobs COMPANIES src w)) = jobs_coll w \<and>
         jobs_calls (snd (scrape_jobs COMPANIES src w)) = jobs_calls w \<and>
         notify_calls (snd (scrape_jobs COMPANIES src w)) = notify_calls w \<and>
         outbox (snd (scrape_jobs COMPANIES src w)) = outbox w \<and>
         stdout (snd (scrape_jobs COMPANIES src w)) = stdout w @ [NoUsersFound]"
  using assms get_user_preferences_frame [OF assms]
  by (simp add: scrape_jobs_def print_def)

theorem no_subscribers_noop_witness:
  "get_user_preferences empty_world = (Inr [], empty_world) \<and>
   scrape_jobs example_companies example_source empty_world =
     (Inr (), empty_world\<lparr>stdout := [NoUsersFound]\<rparr>)"
proof -
  have h: "get_user_preferences empty_world = (Inr [], empty_world)"
    by (simp add: get_user_preferences_def firestore_call_def empty_world_def)
  from no_subscribers_noop [OF h, of example_companies example_source]
  have "fst (scrape_jobs example_companies example_source empty_world) = Inr ()" by simp
  moreover have "snd (scrape_jobs example_companies example_source empty_world) =
     empty_world\<lparr>stdout := [NoUsersFound]\<rparr>"
    by (simp add: run_defs empty_world_def)
  ultimately show ?thesis using h by (simp add: prod_eq_iff)
qed

section \<open>Who is notified of what\<close>

lemma all_jobs_of_Some:
  "all_jobs_of src COMPANIES m c = Some cjs \<Longrightarrow>
     m c = Some cjs \<or>
     (\<exists>t. (c, t) \<in> set COMPANIES \<and> cjs = (case src c t of None \<Rightarrow> [] | Some js \<Rightarrow> js))"
proof (induction COMPANIES arbitrary: m)
  case Nil
  then show ?case by simp
next
  case (Cons p rest)
  obtain c' t' where p: "p = (c', t')" by (cases p)
  define m' where "m' = m(c' \<mapsto> (case src c' t' of None \<Rightarrow> [] | Some js \<Rightarrow> js))"
  from Cons.prems have "all_jobs_of src rest m' c = Some cjs" by (simp add: p m'_def)
  from Cons.IH [OF this] show ?case
    by (auto simp: p m'_def split: if_splits)
qed

lemma tagged_snapshot:
  assumes "source_tags_company src" "all_jobs_of src COMPANIES Map.empty c = Some cjs" "j \<in> set cjs"
  shows "company j = c"
proof -
  from all_jobs_of_Some [OF assms(2)] obtain t where
    t: "cjs = (case src c t of None \<Rightarrow> [] | Some js \<Rightarrow> js)" by auto
  with assms(3) obtain js where "src c t = Some js" "j \<in> set js"
    by (cases "src c t") auto
  with assms(1) show ?thesis unfolding source_tags_company_def by blast
qed


text \<open>
  C4. Each list handed to \<open>send_email_notification\<close> in a run goes to a user of the
  collection \<open>users\<close>, and each of its jobs stands in the snapshot \<open>all_jobs\<close> under a
  company of that user's list \<open>companies\<close>; when the scraper files each job under its own
  company, the job's company is in that list, so a user who follows only Acme gets no job
  of Globex.
\<close>

theorem relevance_filter:
  "\<exists>calls.
     notify_calls (snd (scrape_jobs COMPANIES src w)) = notify_calls w @ calls \<and>
     (\<forall>(e, n, js) \<in> set calls.
        \<exists>u\<in>set (map user_of_doc (users_coll w)). e = u_email u \<and> n = u_name u \<and>
          (\<forall>j\<in>set js.
             (\<exists>c\<in>set (u_companies u). \<exists>cjs.
                 all_jobs_of src COMPANIES Map.empty c = Some cjs \<and> j \<in> set cjs) \<and>
             (source_tags_company src \<longrightarrow> company j \<in> set (u_companies u))))"
proof -
  obtain r w1 where s: "scrape_jobs COMPANIES src w = (r, w1)"
    by (cases "scrape_jobs COMPANIES src w")
  let ?aj = "all_jobs_of src COMPANIES Map.empty"
  let ?us = "map user_of_doc (users_coll w)"
  from scrape_jobs_effect [OF s] obtain new calls where
    n: "jobs_coll w1 = jobs_coll w @ new" "job_id ` set new \<inter> seen_ids w = {}"
       "distinct (map job_id new)"
       "set new \<subseteq> (\<Union>u\<in>set ?us. set (offered ?aj (u_companies u)))"
       "notify_calls w1 = notify_calls w @ calls"
    and c0: "\<forall>(e, n, js) \<in> set calls. js \<noteq> [] \<and> set js \<subseteq> set new \<and>
           (\<exists>u\<in>set ?us. e = u_email u \<and> n = u_name u \<and>
               set js \<subseteq> set (offered ?aj (u_companies u)))"
    by blast
  have "\<exists>u\<in>set ?us. e = u_email u \<and> n = u_name u \<and>
          (\<forall>j\<in>set js.
             (\<exists>c\<in>set (u_companies u). \<exists>cjs. ?aj c = Some cjs \<and> j \<in> set cjs) \<and>
             (source_tags_company src \<longrightarrow> company j \<in> set (u_companies u)))"
    if "(e, n, js) \<in> set calls" for e n js
  proof -
    from bspec [OF c0 that] obtain u where
      u: "u \<in> set ?us" "e = u_email u" "n = u_name u"
         "set js \<subseteq> set (offered ?aj (u_companies u))"
      by auto
    have "(\<exists>c\<in>set (u_companies u). \<exists>cjs. ?aj c = Some cjs \<and> j \<in> set cjs) \<and>
          (source_tags_company src \<longrightarrow> company j \<in> set (u_companies u))"
      if "j \<in> set js" for j
    proof -
      from that u(4) have "j \<in> set (offered ?aj (u_companies u))" by blast
      then obtain c cjs where c: "c \<in> set (u_companies u)" "?aj c = Some cjs" "j \<in> set cjs"
        unfolding set_offered by blast
      then show ?thesis using tagged_snapshot [of src COMPANIES c cjs j] by blast
    qed
    with u(1,2,3) show ?thesis by blast
  qed
  then have "\<forall>(e, n, js) \<in> set calls.
        \<exists>u\<in>set ?us. e = u_email u \<and> n = u_name u \<and>
          (\<forall>j\<in>set js.
             (\<exists>c\<in>set (u_companies u). \<exists>cjs. ?aj c = Some cjs \<and> j \<in> set cjs) \<and>
             (source_tags_company src \<longrightarrow> company j \<in> set (u_companies u)))"
    by (simp add: split_beta Ball_def)
  with n(5) s show ?thesis by auto
qed

theorem relevance_filter_witness:
  "source_tags_company both_source \<and>
   notify_calls (snd (scrape_jobs example_companies both_source
      (empty_world\<lparr>users_coll := [subscriber ''alice'' [''Acme'']]\<rparr>))) =
     [(Some ''alice@example.org'', Some ''alice'', [acme_pm])] \<and>
   company acme_pm \<in> set (u_companies (user_of_doc (subscriber ''alice'' [''Acme''])))"
proof -
  define w where "w = empty_world\<lparr>users_coll := [subscriber ''alice'' [''Acme'']]\<rparr>"
  have h: "source_tags_company both_source"
    by (auto simp: source_tags_company_def both_source_def acme_pm_def globex_pm_def
             split: if_splits)
  have e: "notify_calls (snd (scrape_jobs example_companies both_source w)) =
     [(Some ''alice@example.org'', Some ''alice'', [acme_pm])]"
    by (simp add: w_def run_defs example_defs both_source_def globex_pm_def)
  from relevance_filter [of example_companies both_source w] obtain calls where
    c: "notify_calls (snd (scrape_jobs example_companies both_source w)) = notify_calls w @ calls"
    and a: "\<forall>(e, n, js) \<in> set calls.
        \<exists>u\<in>set (map user_of_doc (users_coll w)). e = u_email u \<and> n = u_name u \<and>
          (\<forall>j\<in>set js.
             (\<exists>c\<in>set (u_companies u). \<exists>cjs.
                 all_jobs_of both_source example_companies Map.empty c = Some cjs \<and> j \<in> set cjs) \<and>
             (source_tags_company both_source \<longrightarrow> company j \<in> set (u_companies u)))"
    by blast
  from c e have "calls = [(Some ''alice@example.org'', Some ''alice'', [acme_pm])]"
    by (simp add: w_def empty_world_def)
  with a h have "company acme_pm \<in> set (u_companies (user_of_doc (subscriber ''alice'' [''Acme''])))"
    by (simp add: w_def empty_world_def)
  with h e show ?thesis unfolding w_def by simp
qed

text \<open>
  C1. Two users follow Acme, the store is empty and Acme's board returns one posting.
  The pass of the first user inserts the posting and hands it to
  \<open>send_email_notification\<close>; the pass of the second user finds it in the store, so the
  second user gets no e-mail and the line of line 70 is printed for them.
\<close>

theorem second_subscriber_not_notified:
  "jobs_coll (run_cycle example_companies
      (example_env [subscriber ''alice'' [''Acme''], subscriber ''bob'' [''Acme'']]) empty_world) =
     [acme_pm] \<and>
   notify_calls (run_cycle example_companies
      (example_env [subscriber ''alice'' [''Acme''], subscriber ''bob'' [''Acme'']]) empty_world) =
     [(Some ''alice@example.org'', Some ''alice'', [acme_pm])] \<and>
   stdout (run_cycle example_companies
      (example_env [subscriber ''alice'' [''Acme''], subscriber ''bob'' [''Acme'']]) empty_world) =
     [ScrapingFrom ''Acme'', ScrapingFrom ''Globex'', EmailOk (Some ''alice@example.org''),
      SentEmail (Some ''alice@example.org'') 1, NoNewJobs (Some ''bob@example.org'')]"
  by (simp add: run_defs example_defs)

section \<open>A call on the store that raises\<close>


section \<open>Runs that differ outside the engine's view\<close>

lemma jobs_where_agree:
  "agree m w v \<Longrightarrow>
     fst (jobs_where jid w) = fst (jobs_where jid v) \<and>
     agree m (snd (jobs_where jid w)) (snd (jobs_where jid v))"
  by (auto simp: agree_def core_def jobs_where_def firestore_call_def
           split: list.splits bool.splits)

lemma jobs_add_agree:
  "agree m w v \<Longrightarrow>
     fst (jobs_add j w) = fst (jobs_add j v) \<and>
     agree m (snd (jobs_add j w)) (snd (jobs_add j v))"
  by (auto simp: agree_def core_def jobs_add_def firestore_call_def
           split: list.splits bool.splits)

lemma get_user_preferences_agree:
  "agree m w v \<Longrightarrow>
     fst (get_user_preferences w) = fst (get_user_preferences v) \<and>
     agree m (snd (get_user_preferences w)) (snd (get_user_preferences v))"
  by (auto simp: agree_def core_def get_user_preferences_def firestore_call_def
           split: list.splits bool.splits)

lemma print_agree: "agree m w v \<Longrightarrow> agree m (print l w) (print l' v)"
  by (simp add: agree_def core_def print_def)

lemma send_email_notification_agree:
  "agree m w v \<Longrightarrow>
     agree m (send_email_notification e n js w) (send_email_notification e n js v)"
  by (auto simp: agree_def core_def send_email_notification_def smtp_session_def print_def Let_def
           split: list.splits smtp_outcome.splits)

lemma notify_user_agree:
  "agree m w v \<Longrightarrow> agree m (notify_user u js w) (notify_user u js v)"
  by (simp add: notify_user_def print_agree send_email_notification_agree)

lemma new_jobs_of_company_agree:
  "agree m w v \<Longrightarrow>
     fst (new_jobs_of_company js acc w) = fst (new_jobs_of_company js acc v) \<and>
     agree m (snd (new_jobs_of_company js acc w)) (snd (new_jobs_of_company js acc v))"
proof (induction js arbitrary: acc w v)
  case Nil
  then show ?case by simp
next
  case (Cons j js)
  obtain q wq where qw: "jobs_where (job_id j) w = (q, wq)" by (cases "jobs_where (job_id j) w")
  obtain q' vq where qv: "jobs_where (job_id j) v = (q', vq)" by (cases "jobs_where (job_id j) v")
  from jobs_where_agree [OF Cons.prems, of "job_id j"] qw qv
  have q: "q' = q" and a1: "agree m wq vq" by simp_all
  show ?case
  proof (cases q)
    case (Inl e)
    with qw qv q a1 show ?thesis by simp
  next
    case (Inr job_ref)
    show ?thesis
    proof (cases "job_ref = []")
      case False
      with qw qv q Inr Cons.IH [OF a1, of acc] show ?thesis by simp
    next
      case True
      obtain a wa where aw: "jobs_add j wq = (a, wa)" by (cases "jobs_add j wq")
      obtain a' va where av: "jobs_add j vq = (a', va)" by (cases "jobs_add j vq")
      from jobs_add_agree [OF a1, of j] aw av
      have a: "a' = a" and a2: "agree m wa va" by simp_all
      show ?thesis
      proof (cases a)
        case (Inl e)
        with qw qv q Inr True aw av a a2 show ?thesis by simp
      next
        case (Inr x)
        with qw qv q \<open>q = Inr job_ref\<close> True aw av a Cons.IH [OF a2, of "acc @ [j]"]
        show ?thesis by simp
      qed
    qed
  qed
qed

lemma new_jobs_of_user_agree:
  "agree m w v \<Longrightarrow>
     fst (new_jobs_of_user all_jobs cs acc w) = fst (new_jobs_of_user all_jobs cs acc v) \<and>
     agree m (snd (new_jobs_of_user all_jobs cs acc w)) (snd (new_jobs_of_user all_jobs cs acc v))"
proof (induction cs arbitrary: acc w v)
  case Nil
  then show ?case by simp
next
  case (Cons c cs)
  show ?case
  proof (cases "all_jobs c")
    case None
    with Cons.IH [OF Cons.prems, of acc] show ?thesis by simp
  next
    case (Some company_jobs)
    obtain q wq where qw: "new_jobs_of_company company_jobs acc w = (q, wq)"
      by (cases "new_jobs_of_company company_jobs acc w")
    obtain q' vq where qv: "new_jobs_of_company company_jobs acc v = (q', vq)"
      by (cases "new_jobs_of_company company_jobs acc v")
    from new_jobs_of_company_agree [OF Cons.prems, of company_jobs acc] qw qv
    have q: "q' = q" and a1: "agree m wq vq" by simp_all
    show ?thesis
    proof (cases q)
      case (Inl e)
      with Some qw qv q a1 show ?thesis by simp
    next
      case (Inr acc1)
      with Some qw qv q Cons.IH [OF a1, of acc1] show ?thesis by simp
    qed
  qed
qed

lemma process_users_agree:
  "agree m w v \<Longrightarrow>
     fst (process_users all_jobs us w) = fst (process_users all_jobs us v) \<and>
     agree m (snd (process_users all_jobs us w)) (snd (process_users all_jobs us v))"
proof (induction us arbitrary: w v)
  case Nil
  then show ?case by simp
next
  case (Cons u us)
  obtain q wq where qw: "new_jobs_of_user all_jobs (u_companies u) [] w = (q, wq)"
    by (cases "new_jobs_of_user all_jobs (u_companies u) [] w")
  obtain q' vq where qv: "new_jobs_of_user all_jobs (u_companies u) [] v = (q', vq)"
    by (cases "new_jobs_of_user all_jobs (u_companies u) [] v")
  from new_jobs_of_user_agree [OF Cons.prems, of all_jobs "u_companies u" "[]"] qw qv
  have q: "q' = q" and a1: "agree m wq vq" by simp_all
  show ?case
  proof (cases q)
    case (Inl e)
    with qw qv q a1 show ?thesis by simp
  next
    case (Inr js)
    from notify_user_agree [OF a1, of u js]
    have "agree m (notify_user u js wq) (notify_user u js vq)" .
    from Cons.IH [OF this] qw qv q Inr show ?thesis by simp
  qed
qed


lemma scrape_all_agree:
  assumes "agree m w v"
  shows "agree m (snd (scrape_all src COMPANIES all_jobs w)) (snd (scrape_all src' COMPANIES all_jobs' v))"
  using assms scrape_all_frame [of src COMPANIES all_jobs w]
        scrape_all_frame [of src' COMPANIES all_jobs' v]
  by (simp add: agree_def core_def)

lemma scrape_jobs_agree:
  assumes "agree m w v"
      and "all_jobs_of src COMPANIES Map.empty = all_jobs_of src' COMPANIES Map.empty"
  shows "fst (scrape_jobs COMPANIES src w) = fst (scrape_jobs COMPANIES src' v) \<and>
         agree m (snd (scrape_jobs COMPANIES src w)) (snd (scrape_jobs COMPANIES src' v))"
proof -
  obtain q wq where qw: "get_user_preferences w = (q, wq)" by (cases "get_user_preferences w")
  obtain q' vq where qv: "get_user_preferences v = (q', vq)" by (cases "get_user_preferences v")
  from get_user_preferences_agree [OF assms(1)] qw qv
  have q: "q' = q" and a1: "agree m wq vq" by simp_all
  show ?thesis
  proof (cases q)
    case (Inl e)
    with qw qv q a1 show ?thesis by (simp add: scrape_jobs_def)
  next
    case (Inr us)
    show ?thesis
    proof (cases "us = []")
      case True
      with qw qv q Inr print_agree [OF a1, of NoUsersFound NoUsersFound]
      show ?thesis by (simp add: scrape_jobs_def)
    next
      case False
      define aj where "aj = all_jobs_of src COMPANIES Map.empty"
      define w2 where "w2 = snd (scrape_all src COMPANIES Map.empty wq)"
      define v2 where "v2 = snd (scrape_all src' COMPANIES Map.empty vq)"
      have sw: "scrape_all src COMPANIES Map.empty wq = (aj, w2)"
        using scrape_all_result [of src COMPANIES Map.empty wq]
        by (simp add: w2_def aj_def prod_eq_iff)
      have sv: "scrape_all src' COMPANIES Map.empty vq = (aj, v2)"
        using scrape_all_result [of src' COMPANIES Map.empty vq] assms(2)
        by (simp add: v2_def aj_def prod_eq_iff)
      have a2: "agree m w2 v2"
        unfolding w2_def v2_def by (rule scrape_all_agree [OF a1])
      have "scrape_jobs COMPANIES src w = process_users aj us w2"
        using qw Inr False sw by (simp add: scrape_jobs_def)
      moreover have "scrape_jobs COMPANIES src' v = process_users aj us v2"
        using qv q Inr False sv by (simp add: scrape_jobs_def)
      ultimately show ?thesis using process_users_agree [OF a2, of aj us] by simp
    qed
  qed
qed

section \<open>Where a run that raises ends\<close>







section \<open>The order of the postings in an e-mail\<close>

lemma fst_append_job:
  "fst ((\<lambda>(c, js). if c = k then (c, js @ [j]) else (c, js)) p) = fst p"
  by (cases p) simp

lemma keys_append_job:
  "map fst (map (\<lambda>(c, js). if c = k then (c, js @ [j]) else (c, js)) xs) = map fst xs"
  by (induction xs) (simp_all add: fst_append_job)

lemma keys_add_to_group_list:
  "map fst (add_to_group j cs) =
     (if company j \<in> set (map fst cs) then map fst cs else map fst cs @ [company j])"
  unfolding add_to_group_def Let_def keys_append_job by simp

lemma keys_add_to_group:
  "set (map fst (add_to_group j cs)) = insert (company j) (set (map fst cs))"
  unfolding keys_add_to_group_list by auto

lemma distinct_add_to_group:
  "distinct (map fst cs) \<Longrightarrow> distinct (map fst (add_to_group j cs))"
  unfolding keys_add_to_group_list by auto

lemma map_of_append_job:
  "map_of (map (\<lambda>(c, js). if c = k then (c, js @ [j]) else (c, js)) xs) c =
     map_option (\<lambda>js. if c = k then js @ [j] else js) (map_of xs c)"
  by (induction xs) (auto split: prod.splits)

lemma jobs_of_add_to_group:
  "jobs_of_group (add_to_group j cs) c =
     jobs_of_group cs c @ (if c = company j then [j] else [])"
proof (cases "company j \<in> set (map fst cs)")
  case True
  then obtain js0 where "map_of cs (company j) = Some js0"
    using map_of_eq_None_iff [of cs "company j"] by auto
  with True show ?thesis
    by (auto simp: jobs_of_group_def add_to_group_def map_of_append_job split: option.splits)
next
  case False
  then have n: "map_of cs (company j) = None" by (simp add: map_of_eq_None_iff)
  have "map_of (cs @ [(company j, [])]) c =
          (if c = company j then Some [] else map_of cs c)"
    using n by (auto simp: map_add_def split: option.splits)
  with False n show ?thesis
    by (auto simp: jobs_of_group_def add_to_group_def map_of_append_job split: option.splits)
qed

lemma keys_group_by_company:
  "set (map fst (group_by_company jobs cs)) = set (map fst cs) \<union> company ` set jobs"
proof (induction jobs arbitrary: cs)
  case Nil
  show ?case by simp
next
  case (Cons j jobs)
  show ?case unfolding group_by_company.simps Cons.IH keys_add_to_group by auto
qed

lemma distinct_group_by_company:
  "distinct (map fst cs) \<Longrightarrow> distinct (map fst (group_by_company jobs cs))"
  by (induction jobs arbitrary: cs) (simp_all add: distinct_add_to_group)

lemma jobs_of_group_by_company:
  "jobs_of_group (group_by_company jobs cs) c =
     jobs_of_group cs c @ filter (\<lambda>j. company j = c) jobs"
proof (induction jobs arbitrary: cs)
  case Nil
  show ?case by simp
next
  case (Cons j jobs)
  show ?case unfolding group_by_company.simps Cons.IH jobs_of_add_to_group by auto
qed

lemma sorted_keys:
  "sort (map fst (group_by_company jobs [])) = sort (remdups (map company jobs))"
proof (rule sorted_distinct_set_unique)
  show "sorted (sort (map fst (group_by_company jobs [])))" by simp
  show "sorted (sort (remdups (map company jobs)))" by simp
  show "distinct (sort (map fst (group_by_company jobs [])))"
    using distinct_group_by_company [of "[]" jobs] by simp
  show "distinct (sort (remdups (map company jobs)))" by simp
  show "set (sort (map fst (group_by_company jobs []))) = set (sort (remdups (map company jobs)))"
    using keys_group_by_company [of jobs "[]"] by simp
qed

text \<open>
  C9, as stated, fails: a user follows Beta and Alpha, in this order, and both boards
  return a new posting. The plain-text part of the e-mail lists the posting of Beta before
  the posting of Alpha, as the list handed to \<open>send_email_notification\<close> does; only the
  table of the HTML part has Alpha first.
\<close>

theorem notification_order_counterexample:
  "map (\<lambda>m. map tb_company (msg_text m))
     (outbox (snd (scrape_jobs [(''Alpha'', ''alpha''), (''Beta'', ''beta'')] alpha_beta_source
        (empty_world\<lparr>users_coll := [subscriber ''dana'' [''Beta'', ''Alpha'']]\<rparr>)))) =
     [[''Beta'', ''Alpha'']] \<and>
   map msg_html
     (outbox (snd (scrape_jobs [(''Alpha'', ''alpha''), (''Beta'', ''beta'')] alpha_beta_source
        (empty_world\<lparr>users_coll := [subscriber ''dana'' [''Beta'', ''Alpha'']]\<rparr>)))) =
     [[CompanyHeader ''Alpha'', JobRow ''PM'' ''NY'' ''ua'',
       CompanyHeader ''Beta'', JobRow ''PM'' ''LA'' ''ub'']]"
  by (simp add: run_defs example_defs alpha_beta_source_def alpha_job_def beta_job_def
        build_message_def text_of_job_def create_html_table_def add_to_group_def
        jobs_of_group_def job_row_def)

section \<open>Runs without faults\<close>

lemma firestore_call_nofault:
  "db_faults w = [] \<Longrightarrow> firestore_call w = (False, w)"
  by (simp add: firestore_call_def)

lemma jobs_where_nofault:
  "db_faults w = [] \<Longrightarrow>
     \<exists>w1. jobs_where jid w = (Inr (filter (\<lambda>d. job_id d = jid) (jobs_coll w)), w1) \<and>
          db_faults w1 = [] \<and> jobs_coll w1 = jobs_coll w"
  by (simp add: jobs_where_def firestore_call_def)

lemma jobs_add_nofault:
  "db_faults w = [] \<Longrightarrow>
     \<exists>w1. jobs_add j w = (Inr (), w1) \<and> db_faults w1 = [] \<and> jobs_coll w1 = jobs_coll w @ [j]"
  by (simp add: jobs_add_def firestore_call_def)

text \<open>Without faults a pass ends normally and leaves every identifier it met in the store.\<close>

lemma new_jobs_of_company_nofault:
  "db_faults w = [] \<Longrightarrow> new_jobs_of_company js acc w = (r, w1) \<Longrightarrow>
     db_faults w1 = [] \<and> (\<exists>acc1. r = Inr acc1) \<and> job_id ` set js \<subseteq> seen_ids w1"
proof (induction js arbitrary: acc w)
  case Nil
  then show ?case by auto
next
  case (Cons j js)
  from jobs_where_nofault [OF Cons.prems(1), of "job_id j"] obtain wq where
    q: "jobs_where (job_id j) w = (Inr (filter (\<lambda>d. job_id d = job_id j) (jobs_coll w)), wq)"
       "db_faults wq = []" "jobs_coll wq = jobs_coll w"
    by blast
  show ?case
  proof (cases "filter (\<lambda>d. job_id d = job_id j) (jobs_coll w) = []")
    case False
    with Cons.prems(2) q(1) have p: "new_jobs_of_company js acc wq = (r, w1)" by simp
    from new_jobs_of_company_effect [OF p] q(3)
    have mono: "seen_ids w \<subseteq> seen_ids w1" by (auto simp: seen_ids_def)
    from False obtain d where d: "d \<in> set (jobs_coll w)" "job_id d = job_id j"
      by (auto simp: filter_empty_conv)
    from imageI [OF d(1), of job_id] d(2) have "job_id j \<in> seen_ids w"
      by (simp add: seen_ids_def)
    with Cons.IH [OF q(2) p] mono show ?thesis by auto
  next
    case True
    from jobs_add_nofault [OF q(2), of j] obtain wa where
      a: "jobs_add j wq = (Inr (), wa)" "db_faults wa = []" "jobs_coll wa = jobs_coll wq @ [j]"
      by blast
    from Cons.prems(2) q(1) True a(1)
    have p: "new_jobs_of_company js (acc @ [j]) wa = (r, w1)" by simp
    from new_jobs_of_company_effect [OF p] a(3)
    have "job_id j \<in> seen_ids w1" by (auto simp: seen_ids_def)
    with Cons.IH [OF a(2) p] show ?thesis by auto
  qed
qed

lemma new_jobs_of_user_nofault:
  "db_faults w = [] \<Longrightarrow> new_jobs_of_user all_jobs cs acc w = (r, w1) \<Longrightarrow>
     db_faults w1 = [] \<and> (\<exists>acc1. r = Inr acc1) \<and>
     job_id ` set (offered all_jobs cs) \<subseteq> seen_ids w1"
proof (induction cs arbitrary: acc w)
  case Nil
  then show ?case by (auto simp: offered_def)
next
  case (Cons c cs)
  show ?case
  proof (cases "all_jobs c")
    case None
    with Cons.prems(2) have p: "new_jobs_of_user all_jobs cs acc w = (r, w1)" by simp
    from Cons.IH [OF Cons.prems(1) p] None show ?thesis by (simp add: offered_Cons)
  next
    case (Some company_jobs)
    obtain q wq where qw: "new_jobs_of_company company_jobs acc w = (q, wq)"
      by (cases "new_jobs_of_company company_jobs acc w")
    from new_jobs_of_company_nofault [OF Cons.prems(1) qw] obtain acc1 where
      n: "db_faults wq = []" "q = Inr acc1" "job_id ` set company_jobs \<subseteq> seen_ids wq"
      by blast
    from Cons.prems(2) Some qw n(2)
    have p: "new_jobs_of_user all_jobs cs acc1 wq = (r, w1)" by simp
    from new_jobs_of_user_effect [OF p]
    have mono: "seen_ids wq \<subseteq> seen_ids w1" by (auto simp: seen_ids_def)
    from Cons.IH [OF n(1) p] n(3) mono Some show ?thesis
      by (auto simp: offered_Cons)
  qed
qed

text \<open>
  Without faults, an identifier the store does not hold and that the snapshot offers to
  some user is in a list handed to \<open>send_email_notification\<close> in this pass.
\<close>

lemma process_users_notifies:
  "db_faults w = [] \<Longrightarrow> process_users all_jobs us w = (r, w1) \<Longrightarrow>
   i \<notin> seen_ids w \<Longrightarrow> u \<in> set us \<Longrightarrow>
   i \<in> job_id ` set (offered all_jobs (u_companies u)) \<Longrightarrow>
     \<exists>calls. notify_calls w1 = notify_calls w @ calls \<and>
            (\<exists>c\<in>set calls. i \<in> job_id ` set (snd (snd c)))"
proof (induction us arbitrary: w)
  case Nil
  then show ?case by simp
next
  case (Cons u' us)
  obtain q wq where qw: "new_jobs_of_user all_jobs (u_companies u') [] w = (q, wq)"
    by (cases "new_jobs_of_user all_jobs (u_companies u') [] w")
  from new_jobs_of_user_nofault [OF Cons.prems(1) qw] obtain js where
    n: "db_faults wq = []" "q = Inr js"
       "job_id ` set (offered all_jobs (u_companies u')) \<subseteq> seen_ids wq"
    by blast
  from new_jobs_of_user_effect [OF qw] n(2)
  have coll: "jobs_coll wq = jobs_coll w @ js" by auto
  note fq = new_jobs_of_user_frame [OF qw]
  define wn where "wn = notify_user u' js wq"
  from Cons.prems(2) qw n(2) have p: "process_users all_jobs us wn = (r, w1)"
    by (simp add: wn_def)
  from process_users_effect [OF p] obtain c2 where
    c2: "notify_calls w1 = notify_calls wn @ c2" by blast
  have wn_calls: "notify_calls wn =
      notify_calls w @ (if js = [] then [] else [(u_email u', u_name u', js)])"
    using fq by (simp add: wn_def notify_user_calls)
  show ?case
  proof (cases "i \<in> job_id ` set js")
    case True
    then have "js \<noteq> []" by auto
    with wn_calls c2
    have "notify_calls w1 = notify_calls w @ ((u_email u', u_name u', js) # c2)" by simp
    moreover have "\<exists>c\<in>set ((u_email u', u_name u', js) # c2). i \<in> job_id ` set (snd (snd c))"
      using True by simp
    ultimately show ?thesis by blast
  next
    case False
    with Cons.prems(3) coll have unseen: "i \<notin> seen_ids wq" by (auto simp: seen_ids_def)
    with n(3) have "i \<notin> job_id ` set (offered all_jobs (u_companies u'))" by blast
    with Cons.prems(4,5) have u: "u \<in> set us" by auto
    have "db_faults wn = []" "seen_ids wn = seen_ids wq"
      using n(1) by (simp_all add: wn_def notify_user_frame seen_ids_def)
    with unseen have a: "db_faults wn = []" "i \<notin> seen_ids wn" by simp_all
    from Cons.IH [OF a(1) p a(2) u Cons.prems(5)] obtain calls where
      c: "notify_calls w1 = notify_calls wn @ calls"
         "\<exists>c\<in>set calls. i \<in> job_id ` set (snd (snd c))"
      by blast
    from c(1) wn_calls
    have "notify_calls w1 =
        notify_calls w @ ((if js = [] then [] else [(u_email u', u_name u', js)]) @ calls)"
      by simp
    moreover have "\<exists>c\<in>set ((if js = [] then [] else [(u_email u', u_name u', js)]) @ calls).
        i \<in> job_id ` set (snd (snd c))"
      using c(2) by auto
    ultimately show ?thesis by blast
  qed
qed

lemma scrape_jobs_fetched:
  assumes "users_coll w \<noteq> []" "take 1 (db_faults w) \<noteq> [True]"
  shows "fetched (snd (scrape_jobs COMPANIES src w)) = fetched w @ COMPANIES"
proof -
  define us where "us = map user_of_doc (users_coll w)"
  obtain q wq where qw: "get_user_preferences w = (q, wq)" by (cases "get_user_preferences w")
  note fq = get_user_preferences_frame [OF qw]
  from assms(2) qw have q: "q = Inr us"
    by (auto simp: get_user_preferences_def firestore_call_def us_def
             split: list.splits bool.splits)
  from assms(1) have ne: "us \<noteq> []" by (simp add: us_def)
  define w2 where "w2 = snd (scrape_all src COMPANIES Map.empty wq)"
  define aj where "aj = fst (scrape_all src COMPANIES Map.empty wq)"
  have sa: "scrape_all src COMPANIES Map.empty wq = (aj, w2)" by (simp add: aj_def w2_def)
  have f2: "fetched w2 = fetched w @ COMPANIES"
    using scrape_all_frame [of src COMPANIES Map.empty wq] fq by (simp add: w2_def)
  have "scrape_jobs COMPANIES src w = process_users aj us w2"
    using qw q ne sa by (simp add: scrape_jobs_def)
  then show ?thesis
    using process_users_frame [of aj us w2 "fst (process_users aj us w2)" "snd (process_users aj us w2)"] f2
    by simp
qed

lemma scrape_jobs_notifies:
  assumes "db_faults w = []" "i \<notin> seen_ids w" "u \<in> set (map user_of_doc (users_coll w))"
      and "i \<in> job_id ` set (offered (all_jobs_of src COMPANIES Map.empty) (u_companies u))"
  shows "\<exists>calls. notify_calls (snd (scrape_jobs COMPANIES src w)) = notify_calls w @ calls \<and>
               (\<exists>c\<in>set calls. i \<in> job_id ` set (snd (snd c)))"
proof -
  define us where "us = map user_of_doc (users_coll w)"
  define aj where "aj = all_jobs_of src COMPANIES Map.empty"
  define w2 where "w2 = snd (scrape_all src COMPANIES Map.empty w)"
  have g: "get_user_preferences w = (Inr us, w)"
    using assms(1) by (simp add: get_user_preferences_def firestore_call_def us_def)
  from assms(3) have ne: "us \<noteq> []" by (auto simp: us_def)
  have sa: "scrape_all src COMPANIES Map.empty w = (aj, w2)"
    using scrape_all_result [of src COMPANIES Map.empty w]
    by (simp add: w2_def aj_def prod_eq_iff)
  have f2: "db_faults w2 = []" "jobs_coll w2 = jobs_coll w" "notify_calls w2 = notify_calls w"
    using scrape_all_frame [of src COMPANIES Map.empty w] assms(1) by (simp_all add: w2_def)
  then have unseen: "i \<notin> seen_ids w2" using assms(2) by (simp add: seen_ids_def)
  have s: "scrape_jobs COMPANIES src w = process_users aj us w2"
    using g ne sa by (simp add: scrape_jobs_def)
  obtain r w1 where p: "process_users aj us w2 = (r, w1)" by (cases "process_users aj us w2")
  from process_users_notifies [OF f2(1) p unseen assms(3) [folded us_def] assms(4) [folded aj_def]]
  show ?thesis unfolding s p using f2(3) by simp
qed

lemma scrape_jobs_inserts_offered:
  assumes "i \<notin> seen_ids w"
      and "\<forall>u\<in>set (map user_of_doc (users_coll w)).
             i \<notin> job_id ` set (offered (all_jobs_of src COMPANIES Map.empty) (u_companies u))"
  shows "i \<notin> seen_ids (snd (scrape_jobs COMPANIES src w))"
proof -
  obtain r w1 where s: "scrape_jobs COMPANIES src w = (r, w1)"
    by (cases "scrape_jobs COMPANIES src w")
  from scrape_jobs_effect [OF s] obtain new where
    n: "jobs_coll w1 = jobs_coll w @ new"
       "set new \<subseteq> (\<Union>u\<in>set (map user_of_doc (users_coll w)).
                       set (offered (all_jobs_of src COMPANIES Map.empty) (u_companies u)))"
    by blast
  have "i \<notin> job_id ` set new"
  proof
    assume "i \<in> job_id ` set new"
    then obtain j where j: "j \<in> set new" "i = job_id j" by auto
    with n(2) obtain u where
      "u \<in> set (map user_of_doc (users_coll w))"
      "j \<in> set (offered (all_jobs_of src COMPANIES Map.empty) (u_companies u))"
      by blast
    with assms(2) j(2) show False by blast
  qed
  with assms(1) n(1) show ?thesis by (auto simp: s seen_ids_def)
qed

text \<open>
  C10. A posting whose identifier the store does not hold, and that the snapshot of a
  cycle offers to no user of that cycle, is not in the store after the cycle, although
  every board of \<open>COMPANIES\<close> is requested when the listing of the users succeeds and is
  not empty. In the next cycle, run without Firestore faults, where the snapshot offers
  it to some user, it is in a list handed to \<open>send_email_notification\<close>.
\<close>

theorem unfollowed_board_not_stored:
  assumes "job_id p \<notin> seen_ids w"
      and "\<forall>u\<in>set (map user_of_doc (env_users env1)).
             job_id p \<notin> job_id ` set (offered (all_jobs_of (env_source env1) COMPANIES Map.empty)
                                              (u_companies u))"
  shows "job_id p \<notin> seen_ids (run_cycle COMPANIES env1 w) \<and>
         (env_users env1 \<noteq> [] \<and> take 1 (env_db_faults env1) \<noteq> [True] \<longrightarrow>
            fetched (run_cycle COMPANIES env1 w) = fetched w @ COMPANIES) \<and>
         (env_db_faults env2 = [] \<and> u \<in> set (map user_of_doc (env_users env2)) \<and>
          job_id p \<in> job_id ` set (offered (all_jobs_of (env_source env2) COMPANIES Map.empty)
                                          (u_companies u)) \<longrightarrow>
            (\<exists>calls.
               notify_calls (run_cycle COMPANIES env2 (run_cycle COMPANIES env1 w)) =
                 notify_calls (run_cycle COMPANIES env1 w) @ calls \<and>
               (\<exists>c\<in>set calls. job_id p \<in> job_id ` set (snd (snd c)))))"
proof -
  define w1 where "w1 = run_cycle COMPANIES env1 w"
  have e1: "seen_ids (enter_cycle env1 w) = seen_ids w"
           "users_coll (enter_cycle env1 w) = env_users env1"
           "db_faults (enter_cycle env1 w) = env_db_faults env1"
           "fetched (enter_cycle env1 w) = fetched w"
    by (simp_all add: enter_cycle_def seen_ids_def)
  have a: "job_id p \<notin> seen_ids w1"
    unfolding w1_def run_cycle_def
    by (rule scrape_jobs_inserts_offered) (simp_all add: e1 assms)
  have b: "fetched w1 = fetched w @ COMPANIES"
    if "env_users env1 \<noteq> []" "take 1 (env_db_faults env1) \<noteq> [True]"
    unfolding w1_def run_cycle_def
    using scrape_jobs_fetched [of "enter_cycle env1 w" COMPANIES "env_source env1"] that
    by (simp add: e1)
  have c: "\<exists>calls. notify_calls (run_cycle COMPANIES env2 w1) = notify_calls w1 @ calls \<and>
               (\<exists>c\<in>set calls. job_id p \<in> job_id ` set (snd (snd c)))"
    if "env_db_faults env2 = []" "u \<in> set (map user_of_doc (env_users env2))"
       "job_id p \<in> job_id ` set (offered (all_jobs_of (env_source env2) COMPANIES Map.empty)
                                          (u_companies u))"
  proof -
    have e2: "seen_ids (enter_cycle env2 w1) = seen_ids w1"
             "users_coll (enter_cycle env2 w1) = env_users env2"
             "db_faults (enter_cycle env2 w1) = env_db_faults env2"
             "notify_calls (enter_cycle env2 w1) = notify_calls w1"
      by (simp_all add: enter_cycle_def seen_ids_def)
    from scrape_jobs_notifies
      [of "enter_cycle env2 w1" "job_id p" u "env_source env2" COMPANIES]
    show ?thesis unfolding run_cycle_def e2 using that a by simp
  qed
  from a b c show ?thesis unfolding w1_def by blast
qed

theorem unfollowed_board_not_stored_witness:
  "job_id globex_pm \<notin> seen_ids empty_world \<and>
   job_id globex_pm \<notin> job_id ` set (offered (all_jobs_of both_source example_companies Map.empty)
       (u_companies (user_of_doc (subscriber ''alice'' [''Acme''])))) \<and>
   job_id globex_pm \<notin> seen_ids (run_cycle example_companies
       (both_env [subscriber ''alice'' [''Acme'']]) empty_world) \<and>
   fetched (run_cycle example_companies (both_env [subscriber ''alice'' [''Acme'']]) empty_world) =
     example_companies \<and>
   notify_calls (run_cycle example_companies
       (both_env [subscriber ''alice'' [''Acme''], subscriber ''bob'' [''Globex'']])
       (run_cycle example_companies (both_env [subscriber ''alice'' [''Acme'']]) empty_world)) =
     [(Some ''alice@example.org'', Some ''alice'', [acme_pm]),
      (Some ''bob@example.org'', Some ''bob'', [globex_pm])]"
proof -
  define env1 where "env1 = both_env [subscriber ''alice'' [''Acme'']]"
  define env2 where "env2 = both_env [subscriber ''alice'' [''Acme''], subscriber ''bob'' [''Globex'']]"
  have h1: "job_id globex_pm \<notin> seen_ids empty_world"
    by (simp add: seen_ids_def empty_world_def)
  have o: "job_id globex_pm \<notin> job_id ` set (offered (all_jobs_of both_source example_companies Map.empty)
       (u_companies (user_of_doc (subscriber ''alice'' [''Acme'']))))"
    by (simp add: offered_def example_defs both_source_def globex_pm_def user_of_doc_def)
  then have h2: "\<forall>u\<in>set (map user_of_doc (env_users env1)).
             job_id globex_pm \<notin> job_id ` set (offered (all_jobs_of (env_source env1) example_companies Map.empty)
                                              (u_companies u))"
    by (simp add: env1_def both_env_def)
  have g: "env_users env1 \<noteq> [] \<and> take 1 (env_db_faults env1) \<noteq> [True]"
    by (simp add: env1_def both_env_def)
  from unfollowed_board_not_stored [OF h1 h2, of env2 "user_of_doc (subscriber ''bob'' [''Globex''])"] g
  have a: "job_id globex_pm \<notin> seen_ids (run_cycle example_companies env1 empty_world)"
    and b: "fetched (run_cycle example_companies env1 empty_world) = fetched empty_world @ example_companies"
    by simp_all
  have c: "notify_calls (run_cycle example_companies env2 (run_cycle example_companies env1 empty_world)) =
     [(Some ''alice@example.org'', Some ''alice'', [acme_pm]),
      (Some ''bob@example.org'', Some ''bob'', [globex_pm])]"
    by (simp add: env1_def env2_def both_env_def run_defs example_defs both_source_def globex_pm_def)
  from h1 o a b c show ?thesis unfolding env1_def env2_def by (simp add: empty_world_def)
qed

section \<open>Requests that fail\<close>







section \<open>Sessions with the SMTP server that fail\<close>

lemma send_email_notification_mail:
  "smtp_faults (send_email_notification e n js w) = tl (smtp_faults w) \<and>
   outbox (send_email_notification e n js w) = outbox w @ delivered (smtp_faults w) [(e, n, js)] \<and>
   stdout (send_email_notification e n js w) = stdout w @ email_log (smtp_faults w) [(e, n, js)]"
  by (simp add: send_email_notification_def smtp_session_def print_def Let_def session_outcome_def
           split: list.splits smtp_outcome.splits)

lemma notify_user_mail:
  "smtp_faults (notify_user u js w) = (if js = [] then smtp_faults w else tl (smtp_faults w)) \<and>
   outbox (notify_user u js w) =
     outbox w @ (if js = [] then [] else delivered (smtp_faults w) [(u_email u, u_name u, js)]) \<and>
   (\<exists>ls. stdout (notify_user u js w) = stdout w @ ls \<and>
         filter is_email_line ls =
           (if js = [] then [] else email_log (smtp_faults w) [(u_email u, u_name u, js)]))"
proof (cases "js = []")
  case True
  have "stdout (notify_user u js w) = stdout w @ [NoNewJobs (u_email u)] \<and>
        filter is_email_line [NoNewJobs (u_email u)] = []"
    using True by (simp add: notify_user_def print_def)
  then show ?thesis using True by (auto simp: notify_user_def print_def)
next
  case False
  let ?ls = "email_log (smtp_faults w) [(u_email u, u_name u, js)] @
             [SentEmail (u_email u) (length js)]"
  have "stdout (notify_user u js w) = stdout w @ ?ls"
    using False by (simp add: notify_user_def print_def send_email_notification_mail)
  moreover have "filter is_email_line ?ls = email_log (smtp_faults w) [(u_email u, u_name u, js)]"
    by simp
  ultimately have "\<exists>ls. stdout (notify_user u js w) = stdout w @ ls \<and>
         filter is_email_line ls = email_log (smtp_faults w) [(u_email u, u_name u, js)]"
    by blast
  then show ?thesis
    using False by (simp add: notify_user_def print_def send_email_notification_mail)
qed

lemma process_users_mail:
  "process_users all_jobs us w = (r, w1) \<Longrightarrow>
     \<exists>calls ls. notify_calls w1 = notify_calls w @ calls \<and>
        outbox w1 = outbox w @ delivered (smtp_faults w) calls \<and>
        stdout w1 = stdout w @ ls \<and>
        filter is_email_line ls = email_log (smtp_faults w) calls"
proof (induction us arbitrary: w)
  case Nil
  then have "notify_calls w1 = notify_calls w @ [] \<and>
        outbox w1 = outbox w @ delivered (smtp_faults w) [] \<and>
        stdout w1 = stdout w @ [] \<and>
        filter is_email_line [] = email_log (smtp_faults w) []"
    by simp
  then show ?case by blast
next
  case (Cons u us)
  obtain q wq where qw: "new_jobs_of_user all_jobs (u_companies u) [] w = (q, wq)"
    by (cases "new_jobs_of_user all_jobs (u_companies u) [] w")
  note fq = new_jobs_of_user_frame [OF qw]
  show ?case
  proof (cases q)
    case (Inl e)
    with Cons.prems qw have "w1 = wq" by simp
    with fq have "notify_calls w1 = notify_calls w @ [] \<and>
        outbox w1 = outbox w @ delivered (smtp_faults w) [] \<and>
        stdout w1 = stdout w @ [] \<and>
        filter is_email_line [] = email_log (smtp_faults w) []"
      by simp
    then show ?thesis by blast
  next
    case (Inr js)
    define wn where "wn = notify_user u js wq"
    define k where "k = (u_email u, u_name u, js)"
    from Cons.prems qw Inr have p: "process_users all_jobs us wn = (r, w1)"
      by (simp add: wn_def)
    from Cons.IH [OF p] obtain c2 l2 where
      i: "notify_calls w1 = notify_calls wn @ c2"
         "outbox w1 = outbox wn @ delivered (smtp_faults wn) c2"
         "stdout w1 = stdout wn @ l2"
         "filter is_email_line l2 = email_log (smtp_faults wn) c2"
      by blast
    from notify_user_mail [of u js wq] obtain l1 where
      m: "smtp_faults wn = (if js = [] then smtp_faults w else tl (smtp_faults w))"
         "outbox wn = outbox w @ (if js = [] then [] else delivered (smtp_faults w) [k])"
         "stdout wn = stdout w @ l1"
         "filter is_email_line l1 = (if js = [] then [] else email_log (smtp_faults w) [k])"
      unfolding wn_def k_def using fq by auto
    have c: "notify_calls wn = notify_calls w @ (if js = [] then [] else [k])"
      using fq by (simp add: wn_def k_def notify_user_calls)
    show ?thesis
    proof (cases "js = []")
      case True
      with i m c have "notify_calls w1 = notify_calls w @ c2 \<and>
        outbox w1 = outbox w @ delivered (smtp_faults w) c2 \<and>
        stdout w1 = stdout w @ (l1 @ l2) \<and>
        filter is_email_line (l1 @ l2) = email_log (smtp_faults w) c2"
        by simp
      then show ?thesis by blast
    next
      case False
      with i m c have "notify_calls w1 = notify_calls w @ (k # c2) \<and>
        outbox w1 = outbox w @ delivered (smtp_faults w) (k # c2) \<and>
        stdout w1 = stdout w @ (l1 @ l2) \<and>
        filter is_email_line (l1 @ l2) = email_log (smtp_faults w) (k # c2)"
        by (simp add: k_def)
      then show ?thesis by blast
    qed
  qed
qed

lemma scrape_all_stdout:
  "\<exists>ls. stdout (snd (scrape_all src COMPANIES all_jobs w)) = stdout w @ ls \<and>
        filter is_email_line ls = []"
proof (induction COMPANIES arbitrary: all_jobs w)
  case Nil
  show ?case by simp
next
  case (Cons p rest)
  obtain c t where p: "p = (c, t)" by (cases p)
  obtain js w1 where s: "scrape_greenhouse_jobs src c t (print (ScrapingFrom c) w) = (js, w1)"
    by (cases "scrape_greenhouse_jobs src c t (print (ScrapingFrom c) w)")
  define l1 where "l1 = ScrapingFrom c # (case src c t of None \<Rightarrow> [ScrapeFailed c] | Some x \<Rightarrow> [])"
  have o1: "stdout w1 = stdout w @ l1" "filter is_email_line l1 = []"
    using s by (auto simp: scrape_greenhouse_jobs_def print_def Let_def l1_def split: option.splits)
  define m where "m = all_jobs(c \<mapsto> js)"
  have step: "scrape_all src (p # rest) all_jobs w = scrape_all src rest m w1"
    by (simp add: p s m_def)
  from Cons.IH [of m w1] obtain l2 where
    o2: "stdout (snd (scrape_all src rest m w1)) = stdout w1 @ l2" "filter is_email_line l2 = []"
    by blast
  have "stdout (snd (scrape_all src (p # rest) all_jobs w)) = stdout w @ (l1 @ l2) \<and>
        filter is_email_line (l1 @ l2) = []"
    using o1 o2 step by simp
  then show ?case by blast
qed

text \<open>The e-mails of one run: what is delivered and what is printed about the sessions.\<close>

lemma scrape_jobs_mail:
  "\<exists>calls ls.
     notify_calls (snd (scrape_jobs COMPANIES src w)) = notify_calls w @ calls \<and>
     outbox (snd (scrape_jobs COMPANIES src w)) = outbox w @ delivered (smtp_faults w) calls \<and>
     stdout (snd (scrape_jobs COMPANIES src w)) = stdout w @ ls \<and>
     filter is_email_line ls = email_log (smtp_faults w) calls"
proof -
  obtain q wq where qw: "get_user_preferences w = (q, wq)" by (cases "get_user_preferences w")
  note fq = get_user_preferences_frame [OF qw]
  have none: ?thesis if "notify_calls (snd (scrape_jobs COMPANIES src w)) = notify_calls w"
    "outbox (snd (scrape_jobs COMPANIES src w)) = outbox w"
    "stdout (snd (scrape_jobs COMPANIES src w)) = stdout w @ l" "filter is_email_line l = []" for l
  proof -
    from that have
      "notify_calls (snd (scrape_jobs COMPANIES src w)) = notify_calls w @ [] \<and>
       outbox (snd (scrape_jobs COMPANIES src w)) = outbox w @ delivered (smtp_faults w) [] \<and>
       stdout (snd (scrape_jobs COMPANIES src w)) = stdout w @ l \<and>
       filter is_email_line l = email_log (smtp_faults w) []"
      by simp
    then show ?thesis by blast
  qed
  show ?thesis
  proof (cases q)
    case (Inl e)
    with qw have "snd (scrape_jobs COMPANIES src w) = wq" by (simp add: scrape_jobs_def)
    with fq show ?thesis by (intro none [of "[]"]) simp_all
  next
    case (Inr us)
    show ?thesis
    proof (cases "us = []")
      case True
      with qw Inr have "snd (scrape_jobs COMPANIES src w) = print NoUsersFound wq"
        by (simp add: scrape_jobs_def)
      with fq show ?thesis by (intro none [of "[NoUsersFound]"]) (simp_all add: print_def)
    next
      case False
      define aj where "aj = fst (scrape_all src COMPANIES Map.empty wq)"
      define w2 where "w2 = snd (scrape_all src COMPANIES Map.empty wq)"
      have sa: "scrape_all src COMPANIES Map.empty wq = (aj, w2)" by (simp add: aj_def w2_def)
      have s: "scrape_jobs COMPANIES src w = process_users aj us w2"
        using qw Inr False sa by (simp add: scrape_jobs_def)
      have f2: "notify_calls w2 = notify_calls w" "outbox w2 = outbox w"
               "smtp_faults w2 = smtp_faults w"
        using scrape_all_frame [of src COMPANIES Map.empty wq] fq by (simp_all add: w2_def)
      from scrape_all_stdout [of src COMPANIES Map.empty wq] obtain l1 where
        l1: "stdout w2 = stdout w @ l1" "filter is_email_line l1 = []"
        unfolding w2_def using fq by auto
      obtain r w1 where p: "process_users aj us w2 = (r, w1)" by (cases "process_users aj us w2")
      from process_users_mail [OF p] obtain calls l2 where
        m: "notify_calls w1 = notify_calls w2 @ calls"
           "outbox w1 = outbox w2 @ delivered (smtp_faults w2) calls"
           "stdout w1 = stdout w2 @ l2"
           "filter is_email_line l2 = email_log (smtp_faults w2) calls"
        by blast
      have "notify_calls (snd (scrape_jobs COMPANIES src w)) = notify_calls w @ calls \<and>
        outbox (snd (scrape_jobs COMPANIES src w)) = outbox w @ delivered (smtp_faults w) calls \<and>
        stdout (snd (scrape_jobs COMPANIES src w)) = stdout w @ (l1 @ l2) \<and>
        filter is_email_line (l1 @ l2) = email_log (smtp_faults w) calls"
        using m f2 l1 by (simp add: s p)
      then show ?thesis by blast
    qed
  qed
qed

text \<open>
  C8. Whatever the outcome of the session with the SMTP server,
  \<open>send_email_notification\<close> returns: the store is as before, a session that raises
  prints the line of line 216 (and has delivered the message when only \<open>server.quit\<close>
  raised), a session that succeeds prints the line of line 214. Whatever the outcomes of
  the sessions of a run, \<open>scrape_jobs\<close> ends as it does when every session succeeds, with
  the same store, the same calls on the collection \<open>jobs\<close> and the same calls of
  \<open>send_email_notification\<close>, so for the users that follow too; each call has its own
  session, which alone decides whether its message is delivered and which line is printed.
\<close>

theorem notify_failure_isolated:
  "jobs_coll (send_email_notification e n js (w\<lparr>smtp_faults := f # fs\<rparr>)) = jobs_coll w \<and>
   smtp_faults (send_email_notification e n js (w\<lparr>smtp_faults := f # fs\<rparr>)) = fs \<and>
   stdout (send_email_notification e n js (w\<lparr>smtp_faults := f # fs\<rparr>)) =
     stdout w @ [if f = SmtpOk then EmailOk e else EmailError e] \<and>
   outbox (send_email_notification e n js (w\<lparr>smtp_faults := f # fs\<rparr>)) =
     outbox w @ (if f = SmtpRaises then [] else [build_message e n js]) \<and>
   fst (scrape_jobs COMPANIES src (w\<lparr>smtp_faults := fs\<rparr>)) =
     fst (scrape_jobs COMPANIES src (w\<lparr>smtp_faults := []\<rparr>)) \<and>
   jobs_coll (snd (scrape_jobs COMPANIES src (w\<lparr>smtp_faults := fs\<rparr>))) =
     jobs_coll (snd (scrape_jobs COMPANIES src (w\<lparr>smtp_faults := []\<rparr>))) \<and>
   jobs_calls (snd (scrape_jobs COMPANIES src (w\<lparr>smtp_faults := fs\<rparr>))) =
     jobs_calls (snd (scrape_jobs COMPANIES src (w\<lparr>smtp_faults := []\<rparr>))) \<and>
   notify_calls (snd (scrape_jobs COMPANIES src (w\<lparr>smtp_faults := fs\<rparr>))) =
     notify_calls (snd (scrape_jobs COMPANIES src (w\<lparr>smtp_faults := []\<rparr>))) \<and>
   (\<exists>calls ls.
      notify_calls (snd (scrape_jobs COMPANIES src (w\<lparr>smtp_faults := fs\<rparr>))) =
        notify_calls w @ calls \<and>
      outbox (snd (scrape_jobs COMPANIES src (w\<lparr>smtp_faults := fs\<rparr>))) =
        outbox w @ delivered fs calls \<and>
      stdout (snd (scrape_jobs COMPANIES src (w\<lparr>smtp_faults := fs\<rparr>))) = stdout w @ ls \<and>
      filter is_email_line ls = email_log fs calls)"
proof -
  have "agree False (w\<lparr>smtp_faults := fs\<rparr>) (w\<lparr>smtp_faults := []\<rparr>)"
    by (simp add: agree_def core_def)
  from scrape_jobs_agree [OF this refl, of COMPANIES src]
  have r: "fst (scrape_jobs COMPANIES src (w\<lparr>smtp_faults := fs\<rparr>)) =
          fst (scrape_jobs COMPANIES src (w\<lparr>smtp_faults := []\<rparr>))"
    and c: "core (snd (scrape_jobs COMPANIES src (w\<lparr>smtp_faults := fs\<rparr>))) =
          core (snd (scrape_jobs COMPANIES src (w\<lparr>smtp_faults := []\<rparr>)))"
    by (simp_all add: agree_def)
  have s: "jobs_coll (send_email_notification e n js (w\<lparr>smtp_faults := f # fs\<rparr>)) = jobs_coll w"
    "smtp_faults (send_email_notification e n js (w\<lparr>smtp_faults := f # fs\<rparr>)) = fs"
    "stdout (send_email_notification e n js (w\<lparr>smtp_faults := f # fs\<rparr>)) =
       stdout w @ [if f = SmtpOk then EmailOk e else EmailError e]"
    "outbox (send_email_notification e n js (w\<lparr>smtp_faults := f # fs\<rparr>)) =
       outbox w @ (if f = SmtpRaises then [] else [build_message e n js])"
    by (simp_all add: send_email_notification_frame send_email_notification_mail session_outcome_def)
  have m: "\<exists>calls ls.
      notify_calls (snd (scrape_jobs COMPANIES src (w\<lparr>smtp_faults := fs\<rparr>))) =
        notify_calls w @ calls \<and>
      outbox (snd (scrape_jobs COMPANIES src (w\<lparr>smtp_faults := fs\<rparr>))) =
        outbox w @ delivered fs calls \<and>
      stdout (snd (scrape_jobs COMPANIES src (w\<lparr>smtp_faults := fs\<rparr>))) = stdout w @ ls \<and>
      filter is_email_line ls = email_log fs calls"
    using scrape_jobs_mail [of COMPANIES src "w\<lparr>smtp_faults := fs\<rparr>"] by simp
  from c have k:
    "jobs_coll (snd (scrape_jobs COMPANIES src (w\<lparr>smtp_faults := fs\<rparr>))) =
       jobs_coll (snd (scrape_jobs COMPANIES src (w\<lparr>smtp_faults := []\<rparr>)))"
    "jobs_calls (snd (scrape_jobs COMPANIES src (w\<lparr>smtp_faults := fs\<rparr>))) =
       jobs_calls (snd (scrape_jobs COMPANIES src (w\<lparr>smtp_faults := []\<rparr>)))"
    "notify_calls (snd (scrape_jobs COMPANIES src (w\<lparr>smtp_faults := fs\<rparr>))) =
       notify_calls (snd (scrape_jobs COMPANIES src (w\<lparr>smtp_faults := []\<rparr>)))"
    by (simp_all add: core_def)
  show ?thesis by (intro conjI s r k m)
qed

theorem notify_failure_isolated_witness:
  "notify_calls (snd (scrape_jobs example_companies both_source
      (empty_world\<lparr>users_coll := [subscriber ''alice'' [''Acme''], subscriber ''bob'' [''Globex'']],
                    smtp_faults := [SmtpRaises, SmtpQuitRaises]\<rparr>))) =
     [(Some ''alice@example.org'', Some ''alice'', [acme_pm]),
      (Some ''bob@example.org'', Some ''bob'', [globex_pm])] \<and>
   outbox (snd (scrape_jobs example_companies both_source
      (empty_world\<lparr>users_coll := [subscriber ''alice'' [''Acme''], subscriber ''bob'' [''Globex'']],
                    smtp_faults := [SmtpRaises, SmtpQuitRaises]\<rparr>))) =
     [build_message (Some ''bob@example.org'') (Some ''bob'') [globex_pm]] \<and>
   stdout (snd (scrape_jobs example_companies both_source
      (empty_world\<lparr>users_coll := [subscriber ''alice'' [''Acme''], subscriber ''bob'' [''Globex'']],
                    smtp_faults := [SmtpRaises, SmtpQuitRaises]\<rparr>))) =
     [ScrapingFrom ''Acme'', ScrapingFrom ''Globex'',
      EmailError (Some ''alice@example.org''), SentEmail (Some ''alice@example.org'') 1,
      EmailError (Some ''bob@example.org''), SentEmail (Some ''bob@example.org'') 1] \<and>
   jobs_coll (snd (scrape_jobs example_companies both_source
      (empty_world\<lparr>users_coll := [subscriber ''alice'' [''Acme''], subscriber ''bob'' [''Globex'']],
                    smtp_faults := [SmtpRaises, SmtpQuitRaises]\<rparr>))) = [acme_pm, globex_pm] \<and>
   fst (scrape_jobs example_companies both_source
      (empty_world\<lparr>users_coll := [subscriber ''alice'' [''Acme''], subscriber ''bob'' [''Globex'']],
                    smtp_faults := [SmtpRaises, SmtpQuitRaises]\<rparr>)) = Inr ()"
proof -
  define w where
    "w = empty_world\<lparr>users_coll := [subscriber ''alice'' [''Acme''], subscriber ''bob'' [''Globex'']]\<rparr>"
  define fs where "fs = [SmtpRaises, SmtpQuitRaises]"
  have e: "scrape_jobs example_companies both_source (w\<lparr>smtp_faults := []\<rparr>) =
             scrape_jobs example_companies both_source w"
    by (simp add: w_def empty_world_def)
  have a: "notify_calls (snd (scrape_jobs example_companies both_source w)) =
     [(Some ''alice@example.org'', Some ''alice'', [acme_pm]),
      (Some ''bob@example.org'', Some ''bob'', [globex_pm])]"
    "jobs_coll (snd (scrape_jobs example_companies both_source w)) = [acme_pm, globex_pm]"
    "fst (scrape_jobs example_companies both_source w) = Inr ()"
    by (simp_all add: w_def run_defs example_defs both_source_def globex_pm_def)
  note T = notify_failure_isolated
      [where w = w and fs = fs and COMPANIES = example_companies and src = both_source,
       unfolded e]
  have n: "notify_calls (snd (scrape_jobs example_companies both_source (w\<lparr>smtp_faults := fs\<rparr>))) =
     [(Some ''alice@example.org'', Some ''alice'', [acme_pm]),
      (Some ''bob@example.org'', Some ''bob'', [globex_pm])]"
    using T [THEN conjunct2, THEN conjunct2, THEN conjunct2, THEN conjunct2, THEN conjunct2,
             THEN conjunct2, THEN conjunct2, THEN conjunct1] a(1)
    by simp
  have j: "jobs_coll (snd (scrape_jobs example_companies both_source (w\<lparr>smtp_faults := fs\<rparr>))) =
       [acme_pm, globex_pm]"
    using T [THEN conjunct2, THEN conjunct2, THEN conjunct2, THEN conjunct2, THEN conjunct2,
             THEN conjunct1] a(2)
    by simp
  have r: "fst (scrape_jobs example_companies both_source (w\<lparr>smtp_faults := fs\<rparr>)) = Inr ()"
    using T [THEN conjunct2, THEN conjunct2, THEN conjunct2, THEN conjunct2, THEN conjunct1] a(3)
    by simp
  from T [THEN conjunct2, THEN conjunct2, THEN conjunct2, THEN conjunct2, THEN conjunct2,
          THEN conjunct2, THEN conjunct2, THEN conjunct2]
  obtain calls where
    c: "notify_calls (snd (scrape_jobs example_companies both_source (w\<lparr>smtp_faults := fs\<rparr>))) =
          notify_calls w @ calls"
       "outbox (snd (scrape_jobs example_companies both_source (w\<lparr>smtp_faults := fs\<rparr>))) =
          outbox w @ delivered fs calls"
    by blast
  from c(1) n have "calls = [(Some ''alice@example.org'', Some ''alice'', [acme_pm]),
      (Some ''bob@example.org'', Some ''bob'', [globex_pm])]"
    by (simp add: w_def empty_world_def)
  with c(2) have o: "outbox (snd (scrape_jobs example_companies both_source (w\<lparr>smtp_faults := fs\<rparr>))) =
     [build_message (Some ''bob@example.org'') (Some ''bob'') [globex_pm]]"
    by (simp add: w_def empty_world_def fs_def session_outcome_def)
  have l: "stdout (snd (scrape_jobs example_companies both_source (w\<lparr>smtp_faults := fs\<rparr>))) =
     [ScrapingFrom ''Acme'', ScrapingFrom ''Globex'',
      EmailError (Some ''alice@example.org''), SentEmail (Some ''alice@example.org'') 1,
      EmailError (Some ''bob@example.org''), SentEmail (Some ''bob@example.org'') 1]"
    by (simp add: w_def fs_def run_defs example_defs both_source_def globex_pm_def)
  from n o l j r show ?thesis unfolding w_def fs_def by simp
qed

section \<open>The lists handed to the notifier\<close>

lemma delivered_from_calls:
  "m \<in> set (delivered fs calls) \<Longrightarrow>
     \<exists>k\<in>set calls. m = build_message (fst k) (fst (snd k)) (snd (snd k))"
proof (induction calls arbitrary: fs)
  case Nil
  then show ?case by simp
next
  case (Cons k calls)
  obtain e n js where k: "k = (e, n, js)" by (cases k)
  from Cons.prems have "m = build_message e n js \<or> m \<in> set (delivered (tl fs) calls)"
    by (auto simp: k split: if_splits)
  then show ?case
  proof
    assume "m = build_message e n js"
    then show ?thesis by (simp add: k)
  next
    assume "m \<in> set (delivered (tl fs) calls)"
    from Cons.IH [OF this] show ?thesis by auto
  qed
qed

text \<open>
  Each list handed to \<open>send_email_notification\<close> is a run of consecutive records among
  those the pass over the users inserted, in the order of their insertion.
\<close>

lemma process_users_segments:
  "process_users all_jobs us w = (r, w1) \<Longrightarrow>
     \<exists>new calls. jobs_coll w1 = jobs_coll w @ new \<and> notify_calls w1 = notify_calls w @ calls \<and>
        (\<forall>k\<in>set calls. \<exists>pre post. new = pre @ snd (snd k) @ post)"
proof (induction us arbitrary: w)
  case Nil
  then have "jobs_coll w1 = jobs_coll w @ [] \<and> notify_calls w1 = notify_calls w @ [] \<and>
        (\<forall>k\<in>set []. \<exists>pre post. [] = pre @ snd (snd k) @ post)"
    by simp
  then show ?case by (intro exI [of _ "[]"])
next
  case (Cons u us)
  obtain q wq where qw: "new_jobs_of_user all_jobs (u_companies u) [] w = (q, wq)"
    by (cases "new_jobs_of_user all_jobs (u_companies u) [] w")
  note fq = new_jobs_of_user_frame [OF qw]
  from new_jobs_of_user_effect [OF qw] obtain n1 where
    n1: "jobs_coll wq = jobs_coll w @ n1" "\<forall>acc1. q = Inr acc1 \<longrightarrow> acc1 = [] @ n1"
    by blast
  show ?case
  proof (cases q)
    case (Inl e)
    with Cons.prems qw have "w1 = wq" by simp
    with n1(1) fq have "jobs_coll w1 = jobs_coll w @ n1 \<and> notify_calls w1 = notify_calls w @ [] \<and>
        (\<forall>k\<in>set []. \<exists>pre post. n1 = pre @ snd (snd k) @ post)"
      by simp
    then show ?thesis by (intro exI [of _ n1] exI [of _ "[]"])
  next
    case (Inr js)
    with n1(2) have js: "js = n1" by simp
    define wn where "wn = notify_user u js wq"
    define c1 where "c1 = (if js = [] then [] else [(u_email u, u_name u, js)])"
    from Cons.prems qw Inr have p: "process_users all_jobs us wn = (r, w1)"
      by (simp add: wn_def)
    from Cons.IH [OF p] obtain n2 c2 where
      i: "jobs_coll w1 = jobs_coll wn @ n2" "notify_calls w1 = notify_calls wn @ c2"
         "\<forall>k\<in>set c2. \<exists>pre post. n2 = pre @ snd (snd k) @ post"
      by blast
    have a: "jobs_coll wn = jobs_coll w @ n1" "notify_calls wn = notify_calls w @ c1"
      using n1(1) fq by (simp_all add: wn_def c1_def notify_user_frame notify_user_calls)
    have g1: "jobs_coll w1 = jobs_coll w @ (n1 @ n2)" using i(1) a(1) by simp
    have g2: "notify_calls w1 = notify_calls w @ (c1 @ c2)" using i(2) a(2) by simp
    have g3: "\<forall>k\<in>set (c1 @ c2). \<exists>pre post. n1 @ n2 = pre @ snd (snd k) @ post"
    proof
      fix k
      assume "k \<in> set (c1 @ c2)"
      then consider "k \<in> set c1" | "k \<in> set c2" by auto
      then show "\<exists>pre post. n1 @ n2 = pre @ snd (snd k) @ post"
      proof cases
        case 1
        then have "snd (snd k) = n1" using js by (auto simp: c1_def split: if_splits)
        then have "n1 @ n2 = [] @ snd (snd k) @ n2" by simp
        then show ?thesis by blast
      next
        case 2
        with i(3) obtain pre post where "n2 = pre @ snd (snd k) @ post" by blast
        then have "n1 @ n2 = (n1 @ pre) @ snd (snd k) @ post" by simp
        then show ?thesis by blast
      qed
    qed
    show ?thesis
      by (rule exI [of _ "n1 @ n2"], rule exI [of _ "c1 @ c2"]) (intro conjI g1 g2 g3)
  qed
qed

lemma scrape_jobs_segments:
  "\<exists>new calls.
     jobs_coll (snd (scrape_jobs COMPANIES src w)) = jobs_coll w @ new \<and>
     notify_calls (snd (scrape_jobs COMPANIES src w)) = notify_calls w @ calls \<and>
     (\<forall>k\<in>set calls. \<exists>pre post. new = pre @ snd (snd k) @ post)"
proof -
  obtain q wq where qw: "get_user_preferences w = (q, wq)" by (cases "get_user_preferences w")
  note fq = get_user_preferences_frame [OF qw]
  have none: ?thesis if "jobs_coll (snd (scrape_jobs COMPANIES src w)) = jobs_coll w"
    "notify_calls (snd (scrape_jobs COMPANIES src w)) = notify_calls w"
  proof -
    from that have "jobs_coll (snd (scrape_jobs COMPANIES src w)) = jobs_coll w @ [] \<and>
      notify_calls (snd (scrape_jobs COMPANIES src w)) = notify_calls w @ [] \<and>
      (\<forall>k\<in>set []. \<exists>pre post. [] = pre @ snd (snd k) @ post)"
      by simp
    then show ?thesis by (intro exI [of _ "[]"])
  qed
  show ?thesis
  proof (cases q)
    case (Inl e)
    with qw have "snd (scrape_jobs COMPANIES src w) = wq" by (simp add: scrape_jobs_def)
    with fq show ?thesis by (intro none) simp_all
  next
    case (Inr us)
    show ?thesis
    proof (cases "us = []")
      case True
      with qw Inr have "snd (scrape_jobs COMPANIES src w) = print NoUsersFound wq"
        by (simp add: scrape_jobs_def)
      with fq show ?thesis by (intro none) (simp_all add: print_def)
    next
      case False
      define aj where "aj = fst (scrape_all src COMPANIES Map.empty wq)"
      define w2 where "w2 = snd (scrape_all src COMPANIES Map.empty wq)"
      have sa: "scrape_all src COMPANIES Map.empty wq = (aj, w2)" by (simp add: aj_def w2_def)
      have s: "scrape_jobs COMPANIES src w = process_users aj us w2"
        using qw Inr False sa by (simp add: scrape_jobs_def)
      have f2: "notify_calls w2 = notify_calls w" "jobs_coll w2 = jobs_coll w"
        using scrape_all_frame [of src COMPANIES Map.empty wq] fq by (simp_all add: w2_def)
      obtain r w1 where p: "process_users aj us w2 = (r, w1)" by (cases "process_users aj us w2")
      from process_users_segments [OF p] show ?thesis unfolding s p snd_conv f2 .
    qed
  qed
qed

text \<open>
  C9, amended. The table of the HTML part has one group for each company among the jobs,
  the groups in ascending order of the company's name, each group the header and then the
  rows of that company's jobs in the order of the list handed to
  \<open>send_email_notification\<close>; the plain-text part has the jobs in the order of that list.
  Every message delivered in a run is built from such a list, and the list is a run of
  consecutive records among those inserted into the store, in the order of insertion.
\<close>

theorem html_table_grouped:
  "create_html_table jobs =
     concat (map (\<lambda>c. CompanyHeader c # map job_row (filter (\<lambda>j. company j = c) jobs))
                 (sort (remdups (map company jobs)))) \<and>
   sorted (sort (remdups (map company jobs))) \<and>
   distinct (sort (remdups (map company jobs))) \<and>
   msg_html (build_message e n jobs) = create_html_table jobs \<and>
   msg_text (build_message e n jobs) = map text_of_job jobs \<and>
   (\<exists>new calls msgs.
      jobs_coll (snd (scrape_jobs COMPANIES src w)) = jobs_coll w @ new \<and>
      notify_calls (snd (scrape_jobs COMPANIES src w)) = notify_calls w @ calls \<and>
      outbox (snd (scrape_jobs COMPANIES src w)) = outbox w @ msgs \<and>
      (\<forall>k\<in>set calls. \<exists>pre post. new = pre @ snd (snd k) @ post) \<and>
      (\<forall>m\<in>set msgs. \<exists>k\<in>set calls. m = build_message (fst k) (fst (snd k)) (snd (snd k))))"
proof -
  have g: "jobs_of_group (group_by_company jobs []) c = filter (\<lambda>j. company j = c) jobs" for c
    unfolding jobs_of_group_by_company by (simp add: jobs_of_group_def)
  have t: "create_html_table jobs =
     concat (map (\<lambda>c. CompanyHeader c # map job_row (filter (\<lambda>j. company j = c) jobs))
                 (sort (remdups (map company jobs))))"
    by (simp add: create_html_table_def Let_def sorted_keys g)
  have b: "msg_html (build_message e n jobs) = create_html_table jobs"
          "msg_text (build_message e n jobs) = map text_of_job jobs"
    by (simp_all add: build_message_def)
  have o: "sorted (sort (remdups (map company jobs)))" "distinct (sort (remdups (map company jobs)))"
    by simp_all
  from scrape_jobs_segments [of COMPANIES src w] obtain new calls where
    s: "jobs_coll (snd (scrape_jobs COMPANIES src w)) = jobs_coll w @ new"
       "notify_calls (snd (scrape_jobs COMPANIES src w)) = notify_calls w @ calls"
       "\<forall>k\<in>set calls. \<exists>pre post. new = pre @ snd (snd k) @ post"
    by blast
  from scrape_jobs_mail [of COMPANIES src w] obtain calls' where
    m: "notify_calls (snd (scrape_jobs COMPANIES src w)) = notify_calls w @ calls'"
       "outbox (snd (scrape_jobs COMPANIES src w)) = outbox w @ delivered (smtp_faults w) calls'"
    by blast
  from s(2) m(1) have "calls' = calls" by simp
  with m(2) have d: "outbox (snd (scrape_jobs COMPANIES src w)) =
      outbox w @ delivered (smtp_faults w) calls" by simp
  have f: "\<forall>m\<in>set (delivered (smtp_faults w) calls).
      \<exists>k\<in>set calls. m = build_message (fst k) (fst (snd k)) (snd (snd k))"
    using delivered_from_calls by blast
  have r: "\<exists>new calls msgs.
      jobs_coll (snd (scrape_jobs COMPANIES src w)) = jobs_coll w @ new \<and>
      notify_calls (snd (scrape_jobs COMPANIES src w)) = notify_calls w @ calls \<and>
      outbox (snd (scrape_jobs COMPANIES src w)) = outbox w @ msgs \<and>
      (\<forall>k\<in>set calls. \<exists>pre post. new = pre @ snd (snd k) @ post) \<and>
      (\<forall>m\<in>set msgs. \<exists>k\<in>set calls. m = build_message (fst k) (fst (snd k)) (snd (snd k)))"
    by (rule exI [of _ new], rule exI [of _ calls],
        rule exI [of _ "delivered (smtp_faults w) calls"])
       (intro conjI s(1) s(2) d s(3) f)
  show ?thesis by (intro conjI t o b r)
qed

theorem html_table_grouped_witness:
  "create_html_table [beta_job, alpha_job, beta_job\<lparr>job_id := ''be2'', title := ''Lead''\<rparr>] =
     [CompanyHeader ''Alpha'', JobRow ''PM'' ''NY'' ''ua'',
      CompanyHeader ''Beta'', JobRow ''PM'' ''LA'' ''ub'', JobRow ''Lead'' ''LA'' ''ub''] \<and>
   map tb_company (msg_text (build_message None None
      [beta_job, alpha_job, beta_job\<lparr>job_id := ''be2'', title := ''Lead''\<rparr>])) =
     [''Beta'', ''Alpha'', ''Beta''] \<and>
   jobs_coll (snd (scrape_jobs [(''Alpha'', ''alpha''), (''Beta'', ''beta'')] alpha_beta_source
        (empty_world\<lparr>users_coll := [subscriber ''dana'' [''Beta'', ''Alpha'']]\<rparr>))) =
     [beta_job, alpha_job] \<and>
   outbox (snd (scrape_jobs [(''Alpha'', ''alpha''), (''Beta'', ''beta'')] alpha_beta_source
        (empty_world\<lparr>users_coll := [subscriber ''dana'' [''Beta'', ''Alpha'']]\<rparr>))) =
     [build_message (Some ''dana@example.org'') (Some ''dana'') [beta_job, alpha_job]]"
proof -
  define js where "js = [beta_job, alpha_job, beta_job\<lparr>job_id := ''be2'', title := ''Lead''\<rparr>]"
  define w where "w = empty_world\<lparr>users_coll := [subscriber ''dana'' [''Beta'', ''Alpha'']]\<rparr>"
  have s: "sort (remdups (map company js)) = [''Alpha'', ''Beta'']"
    by (simp add: js_def alpha_job_def beta_job_def)
  note T = html_table_grouped [of js None None "[(''Alpha'', ''alpha''), (''Beta'', ''beta'')]"
             alpha_beta_source w]
  have a: "create_html_table js =
     [CompanyHeader ''Alpha'', JobRow ''PM'' ''NY'' ''ua'',
      CompanyHeader ''Beta'', JobRow ''PM'' ''LA'' ''ub'', JobRow ''Lead'' ''LA'' ''ub'']"
    using T [THEN conjunct1] unfolding s
    by (simp add: js_def alpha_job_def beta_job_def job_row_def)
  have b: "map tb_company (msg_text (build_message None None js)) = [''Beta'', ''Alpha'', ''Beta'']"
    using T [THEN conjunct2, THEN conjunct2, THEN conjunct2, THEN conjunct2, THEN conjunct1]
    by (simp add: js_def alpha_job_def beta_job_def text_of_job_def)
  have c: "jobs_coll (snd (scrape_jobs [(''Alpha'', ''alpha''), (''Beta'', ''beta'')] alpha_beta_source w)) =
     [beta_job, alpha_job]"
    "outbox (snd (scrape_jobs [(''Alpha'', ''alpha''), (''Beta'', ''beta'')] alpha_beta_source w)) =
     [build_message (Some ''dana@example.org'') (Some ''dana'') [beta_job, alpha_job]]"
    by (simp_all add: w_def run_defs example_defs alpha_beta_source_def alpha_job_def beta_job_def)
  from a b c show ?thesis unfolding js_def w_def by simp
qed

end
